theory Spec2Isabelle
  imports Main
begin

section \<open>JavaScript strings and truthiness\<close>

text \<open>
  Strings are \<open>string\<close>; an optional argument or a nullable field is a \<open>string option\<close>,
  with \<open>None\<close> for \<open>undefined\<close>/\<open>null\<close>. A guard such as \<open>if (this._entry)\<close> tests
  truthiness: the value is set and is not the empty string.
\<close>

definition truthy :: "string option \<Rightarrow> bool" where
  "truthy v = (case v of None \<Rightarrow> False | Some s \<Rightarrow> s \<noteq> [])"

text \<open>A template literal prints a \<open>null\<close> field as the four letters \<open>null\<close>.\<close>

definition template :: "string option \<Rightarrow> string" where
  "template v = (case v of None \<Rightarrow> ''null'' | Some s \<Rightarrow> s)"

text \<open>\<open>String.prototype.indexOf\<close>: the position of the first occurrence, or \<open>-1\<close>.\<close>

fun str_indexOf :: "string \<Rightarrow> string \<Rightarrow> int" where
  "str_indexOf [] sub = (if sub = [] then 0 else - 1)"
| "str_indexOf (c # cs) sub =
     (if take (length sub) (c # cs) = sub then 0
      else (let i = str_indexOf cs sub in if i < 0 then - 1 else i + 1))"

text \<open>\<open>String.prototype.includes\<close>.\<close>

definition str_includes :: "string \<Rightarrow> string \<Rightarrow> bool" where
  "str_includes s sub = (str_indexOf s sub \<noteq> - 1)"

text \<open>\<open>Array.prototype.indexOf\<close> on an array of strings.\<close>

fun arr_indexOf :: "string list \<Rightarrow> string \<Rightarrow> int" where
  "arr_indexOf [] x = - 1"
| "arr_indexOf (y # ys) x =
     (if y = x then 0
      else (let i = arr_indexOf ys x in if i < 0 then - 1 else i + 1))"

text \<open>\<open>Array.prototype.join\<close>.\<close>

fun join :: "string list \<Rightarrow> string \<Rightarrow> string" where
  "join [] sep = []"
| "join [x] sep = x"
| "join (x # y # ys) sep = x @ sep @ join (y # ys) sep"

text \<open>
  \<open>existsAt.match(/\.js$/i)\<close>: the last three characters are a dot, \<open>j\<close> or \<open>J\<close>,
  and \<open>s\<close> or \<open>S\<close>.
\<close>

definition match_js :: "string \<Rightarrow> bool" where
  "match_js p =
     (case rev p of
        s # j # d # _ \<Rightarrow>
          d = CHR ''.'' \<and> (j = CHR ''j'' \<or> j = CHR ''J'') \<and> (s = CHR ''s'' \<or> s = CHR ''S'')
      | _ \<Rightarrow> False)"

section \<open>The build-process runner (\<open>WebpackNodeUtilsRunner\<close>)\<close>

text \<open>
  The instance fields \<open>_entry\<close>, \<open>_entryPath\<close>, \<open>_running\<close>, \<open>_instance\<close> and \<open>_setup\<close>.
  A process handle is the number of the \<open>fork\<close> call that returned it.
\<close>

record runner =
  r_entry :: "string option"
  r_entryPath :: "string option"
  r_running :: bool
  r_instance :: "nat option"
  r_setup :: bool

text \<open>
  What a handler does to the outside world, in order: a line on the console (colour and
  text), a call of \<open>child_process.fork\<close> with its argument, a \<open>kill\<close> on a handle, and
  the call of the continuation given to \<open>after-emit\<close>.
\<close>

datatype effect =
    ConsoleLog string string
  | Fork "string option"
  | Kill nat
  | Callback

datatype error = TypeError | ModuleNotFound

type_synonym world = "runner \<times> effect list"

fun is_Fork :: "effect \<Rightarrow> bool" where
  "is_Fork (Fork _) = True"
| "is_Fork _ = False"

fun is_Kill :: "effect \<Rightarrow> bool" where
  "is_Kill (Kill _) = True"
| "is_Kill _ = False"

fun is_ConsoleLog :: "effect \<Rightarrow> bool" where
  "is_ConsoleLog (ConsoleLog _ _) = True"
| "is_ConsoleLog _ = False"

text \<open>
  The host's artifacts: \<open>compilation.assets\<close> as the list of its properties in the order
  of \<open>Object.keys\<close>, each asset with the \<open>existsAt\<close> path the host has set on it when
  it fires \<open>after-emit\<close>. \<open>map_of\<close> is the property read \<open>compilation.assets[a]\<close>.
\<close>

record asset =
  existsAt :: string

record compilation =
  assets :: "(string \<times> asset) list"

text \<open>
  The class exists in two copies, \<open>src/runner.js\<close> and the unnamed part 002. They differ
  in the filter of \<open>_onAssetsEmitted\<close> only.
\<close>

datatype copy = Runner_js | Part_002

definition constructor :: "string option \<Rightarrow> runner" where
  "constructor entry =
     \<lparr> r_entry = (if truthy entry then entry else None),
       r_entryPath = None,
       r_running = False,
       r_instance = None,
       r_setup = False \<rparr>"

text \<open>\<open>_log(msg, color)\<close> and the four coloured loggers built by \<open>_defineLogMethods\<close>.\<close>

definition log :: "string option \<Rightarrow> string option \<Rightarrow> effect" where
  "log msg color =
     (let logMsg = (if truthy msg then ''[WebpackNodeUtilsRunner] '' @ the msg else []);
          logColor = (if truthy color then the color else ''white'')
      in ConsoleLog logColor logMsg)"

definition logInfo :: "string \<Rightarrow> effect" where
  "logInfo msg = log (Some msg) (Some ''grey'')"

definition logError :: "string \<Rightarrow> effect" where
  "logError msg = log (Some msg) (Some ''red'')"

definition logWarn :: "string \<Rightarrow> effect" where
  "logWarn msg = log (Some msg) (Some ''yellow'')"

definition logSuccess :: "string \<Rightarrow> effect" where
  "logSuccess msg = log (Some msg) (Some ''green'')"

definition logAvailableEntries :: "string list \<Rightarrow> effect" where
  "logAvailableEntries entries =
     (let list = join entries '', '' in
      logInfo (''These are the available entries: '' @ list))"

text \<open>
  The candidate list \<open>entries\<close>: \<open>Object.keys(compilation.assets).filter(...)\<close>. In
  \<open>src/runner.js\<close> the filter is \<open>a.indexOf('hot-update') < 0\<close>; in part 002 it is
  \<open>!a.includes('hot-update') && assets[a].existsAt && assets[a].existsAt.match(/\.js$/i)\<close>.
\<close>

fun entries_of :: "copy \<Rightarrow> compilation \<Rightarrow> string list" where
  "entries_of Runner_js compilation =
     filter (\<lambda>a. str_indexOf a ''hot-update'' < 0) (map fst (assets compilation))"
| "entries_of Part_002 compilation =
     filter (\<lambda>a. \<not> str_includes a ''hot-update'' \<and>
                  (case map_of (assets compilation) a of
                     None \<Rightarrow> False
                   | Some x \<Rightarrow> existsAt x \<noteq> [] \<and> match_js (existsAt x)))
            (map fst (assets compilation))"

text \<open>
  \<open>_onAssetsEmitted(compilation, callback)\<close>. \<open>path_resolve\<close> is \<open>path.resolve\<close>. Reading
  \<open>existsAt\<close> of an absent asset would raise a \<open>TypeError\<close>.
\<close>

definition onAssetsEmitted ::
  "copy \<Rightarrow> (string \<Rightarrow> string) \<Rightarrow> compilation \<Rightarrow> world \<Rightarrow> error + world" where
  "onAssetsEmitted cp path_resolve compilation = (\<lambda>(this, out).
     if \<not> r_setup this then
       (let this = this\<lparr>r_setup := True\<rparr>;
            entries = entries_of cp compilation;
            out = out @ [log None None];
            (this, out) =
              (if truthy (r_entry this) \<and> arr_indexOf entries (the (r_entry this)) = - 1 then
                 (this\<lparr>r_entry := None\<rparr>,
                  out @ [logError (''The required entry ('' @ template (r_entry this) @
                                   '') doesn't exist''),
                         logAvailableEntries entries])
               else if \<not> truthy (r_entry this) \<and> length entries = 1 then
                 (let this = this\<lparr>r_entry := Some (entries ! 0)\<rparr> in
                  (this,
                   out @ [logSuccess (''Using the only available entry: '' @
                                      template (r_entry this))]))
               else if \<not> truthy (r_entry this) \<and> length entries > 1 then
                 (let this = this\<lparr>r_entry := Some (entries ! 0)\<rparr> in
                  (this,
                   out @ [logWarn (''Doing fallback to the first entry: '' @
                                   template (r_entry this)),
                          logAvailableEntries entries]))
               else
                 (this,
                  out @ [logSuccess (''Using the following entry: '' @
                                     template (r_entry this))]))
        in if truthy (r_entry this) then
             (case map_of (assets compilation) (the (r_entry this)) of
                None \<Rightarrow> Inl TypeError
              | Some a \<Rightarrow>
                  (let this = this\<lparr>r_entryPath := Some (path_resolve (existsAt a))\<rparr> in
                   Inr (this,
                        out @ [logSuccess (''Entry file: '' @ template (r_entryPath this)),
                               Callback])))
           else Inr (this, out @ [Callback]))
     else Inr (this, out @ [Callback]))"

text \<open>\<open>_onCompilationStarts()\<close>, the handler of \<open>compile\<close>.\<close>

definition onCompilationStarts :: "world \<Rightarrow> world" where
  "onCompilationStarts = (\<lambda>(this, out).
     if truthy (r_entry this) \<and> r_running this \<and> r_instance this \<noteq> None then
       (this\<lparr>r_instance := None, r_running := False\<rparr>,
        out @ [logInfo ''Stopping bundle process'', Kill (the (r_instance this))])
     else (this, out))"

text \<open>
  \<open>_onCompilationEnds()\<close>, the handler of \<open>done\<close>. \<open>fork\<close> returns a new handle, numbered
  by the forks made so far.
\<close>

definition onCompilationEnds :: "world \<Rightarrow> world" where
  "onCompilationEnds = (\<lambda>(this, out).
     if truthy (r_entry this) \<and> \<not> r_running this then
       (this\<lparr>r_instance := Some (length (filter is_Fork out)), r_running := True\<rparr>,
        out @ [Fork (r_entryPath this), log None None, logSuccess ''Starting bundle process''])
     else (this, out))"

text \<open>The host fires events at the handlers registered by \<open>apply\<close>.\<close>

datatype event = AfterEmit compilation | Compile | Done

fun is_AfterEmit :: "event \<Rightarrow> bool" where
  "is_AfterEmit (AfterEmit _) = True"
| "is_AfterEmit _ = False"

fun trigger :: "copy \<Rightarrow> (string \<Rightarrow> string) \<Rightarrow> event \<Rightarrow> world \<Rightarrow> error + world" where
  "trigger cp path_resolve (AfterEmit compilation) w = onAssetsEmitted cp path_resolve compilation w"
| "trigger cp path_resolve Compile w = Inr (onCompilationStarts w)"
| "trigger cp path_resolve Done w = Inr (onCompilationEnds w)"

fun triggers :: "copy \<Rightarrow> (string \<Rightarrow> string) \<Rightarrow> event list \<Rightarrow> world \<Rightarrow> error + world" where
  "triggers cp path_resolve [] w = Inr w"
| "triggers cp path_resolve (e # es) w =
     (case trigger cp path_resolve e w of
        Inl err \<Rightarrow> Inl err
      | Inr w' \<Rightarrow> triggers cp path_resolve es w')"

section \<open>Configuration values, objects and modules (\<open>src/index.js\<close>)\<close>

text \<open>
  The values a parameter bag or a configuration object holds. Numbers are the integers
  (\<open>Date.now()\<close> is one). An object is the list of its properties in the order of
  \<open>Object.keys\<close>.
\<close>

datatype jsvalue =
    JUndefined
  | JNull
  | JBoolean bool
  | JNumber int
  | JString string
  | JArray "jsvalue list"
  | JObject "(string \<times> jsvalue) list"

type_synonym object = "(string \<times> jsvalue) list"

text \<open>The test of \<open>if (config.extends)\<close>.\<close>

fun js_truthy :: "jsvalue \<Rightarrow> bool" where
  "js_truthy JUndefined = False"
| "js_truthy JNull = False"
| "js_truthy (JBoolean b) = b"
| "js_truthy (JNumber n) = (n \<noteq> 0)"
| "js_truthy (JString s) = (s \<noteq> [])"
| "js_truthy (JArray _) = True"
| "js_truthy (JObject _) = True"

text \<open>
  What a template literal makes of a value: \<open>String(v)\<close>. A number is printed in
  decimal; an array joins its elements with commas, \<open>null\<close> and \<open>undefined\<close> printing
  as nothing; an object prints as \<open>[object Object]\<close>.
\<close>

fun string_of_nat :: "nat \<Rightarrow> string" where
  "string_of_nat n =
     (if n < 10 then [''0123456789'' ! n]
      else string_of_nat (n div 10) @ [''0123456789'' ! (n mod 10)])"

declare string_of_nat.simps [simp del]

fun toString :: "jsvalue \<Rightarrow> string" where
  "toString JUndefined = ''undefined''"
| "toString JNull = ''null''"
| "toString (JBoolean b) = (if b then ''true'' else ''false'')"
| "toString (JNumber n) =
     (if n < 0 then ''-'' @ string_of_nat (nat (- n)) else string_of_nat (nat n))"
| "toString (JString s) = s"
| "toString (JArray xs) =
     join (map (\<lambda>v. if v = JUndefined \<or> v = JNull then [] else toString v) xs) '',''"
| "toString (JObject _) = ''[object Object]''"

text \<open>
  Reading a property (\<open>undefined\<close> when absent), assigning one (in place when present,
  appended when new), \<open>delete\<close>, and \<open>Object.assign(target, source)\<close>.
\<close>

definition get_prop :: "(string \<times> jsvalue) list \<Rightarrow> string \<Rightarrow> jsvalue" where
  "get_prop obj k = (case map_of obj k of None \<Rightarrow> JUndefined | Some v \<Rightarrow> v)"

fun set_prop :: "string \<Rightarrow> 'v \<Rightarrow> (string \<times> 'v) list \<Rightarrow> (string \<times> 'v) list" where
  "set_prop k v [] = [(k, v)]"
| "set_prop k v ((k', v') # rest) =
     (if k' = k then (k, v) # rest else (k', v') # set_prop k v rest)"

definition delete_prop :: "(string \<times> 'v) list \<Rightarrow> string \<Rightarrow> (string \<times> 'v) list" where
  "delete_prop obj k = filter (\<lambda>(k', v). k' \<noteq> k) obj"

definition object_assign :: "(string \<times> 'v) list \<Rightarrow> (string \<times> 'v) list \<Rightarrow> (string \<times> 'v) list" where
  "object_assign target source = fold (\<lambda>(k, v) obj. set_prop k v obj) source target"

text \<open>
  What \<open>require\<close> returns for a configuration file: the function exported as
  \<open>module.exports\<close>, if it is one, and the functions exported under a name. A
  configuration function is taken as a pure function from the parameter bag to the
  configuration object.
\<close>

record jsmodule =
  default_export :: "(object \<Rightarrow> object) option"
  named_exports :: "string \<Rightarrow> (object \<Rightarrow> object) option"

text \<open>
  What the class takes from Node and from its dependencies: the project root
  (\<open>process.cwd()\<close>), \<open>path.join\<close>, the modules \<open>require\<close> finds by path,
  \<open>webpack-merge\<close>, and the clock read by \<open>Date.now()\<close>.
\<close>

record host =
  rootPath :: string
  path_join :: "string \<Rightarrow> string \<Rightarrow> string"
  modules :: "string \<Rightarrow> jsmodule option"
  merge :: "object \<Rightarrow> object \<Rightarrow> object"
  date_now :: nat

text \<open>The static method \<open>require(modulePath)\<close>; \<open>None\<close> when Node finds no module.\<close>

definition require :: "host \<Rightarrow> string \<Rightarrow> jsmodule option" where
  "require h modulePath = modules h (path_join h (rootPath h) modulePath)"

text \<open>
  \<open>_loadConfig(directory, name, params, fn)\<close>. The recursion on \<open>extends\<close> need not end,
  so the function takes fuel, one unit per configuration file loaded, and \<open>None\<close> says
  that the fuel ran out. A missing module is Node's \<open>MODULE_NOT_FOUND\<close> error; calling
  an export that is not there is a \<open>TypeError\<close>.
\<close>

fun loadConfig ::
  "nat \<Rightarrow> host \<Rightarrow> string \<Rightarrow> string \<Rightarrow> object \<Rightarrow> string option \<Rightarrow> (error + object) option" where
  "loadConfig 0 h directory name params fn = None"
| "loadConfig (Suc fuel) h directory name params fn =
     (let configPath = path_join h directory (name @ ''.js'') in
      case require h configPath of
        None \<Rightarrow> Some (Inl ModuleNotFound)
      | Some configModule \<Rightarrow>
          (case (if truthy fn then named_exports configModule (the fn)
                 else default_export configModule) of
             None \<Rightarrow> Some (Inl TypeError)
           | Some f \<Rightarrow>
               (let config = f params in
                if js_truthy (get_prop config ''extends'') then
                  (case loadConfig fuel h directory (toString (get_prop config ''extends''))
                          params None of
                     None \<Rightarrow> None
                   | Some (Inl err) \<Rightarrow> Some (Inl err)
                   | Some (Inr baseConfig) \<Rightarrow>
                       Some (Inr (merge h baseConfig (delete_prop config ''extends''))))
                else Some (Inr config))))"

text \<open>
  \<open>config(directory, target, type, useHash, params, fn)\<close>. Its first statements build
  the parameter bag: \<open>Object.assign({ hash, hashStr }, params || {})\<close>.
\<close>

definition config_params :: "nat \<Rightarrow> bool \<Rightarrow> object option \<Rightarrow> object" where
  "config_params now useHash params =
     (let hash = (if useHash then JNumber (int now) else JString []);
          hashStr = (if useHash then JString (''.'' @ toString hash) else JString [])
      in object_assign [(''hash'', hash), (''hashStr'', hashStr)]
           (case params of None \<Rightarrow> [] | Some p \<Rightarrow> p))"

definition config ::
  "nat \<Rightarrow> host \<Rightarrow> string \<Rightarrow> string \<Rightarrow> string \<Rightarrow> bool \<Rightarrow> object option \<Rightarrow> string option
     \<Rightarrow> (error + object) option" where
  "config fuel h directory target type useHash params fn =
     (let params = config_params (date_now h) useHash params;
          fn = (if truthy fn then fn else Some []);
          configName = target @ ''.'' @ type
      in loadConfig fuel h directory configName params fn)"

text \<open>
  \<open>externals(extras, addDev, defaults, ignore)\<close>. \<open>packageJSON\<close> is what
  \<open>this.require('package.json')\<close> returned: the manifest, whose \<open>dependencies\<close> and
  \<open>devDependencies\<close> sections, each in key order, may be absent (\<open>None\<close>).
  \<open>Object.keys\<close> of an absent section raises a \<open>TypeError\<close>; \<open>devDependencies\<close> is read
  only when \<open>addDev\<close> holds. An omitted argument is \<open>None\<close>.
\<close>

record manifest =
  dependencies :: "(string \<times> string) list option"
  devDependencies :: "(string \<times> string) list option"

text \<open>
  The assignment \<open>result[name] = value\<close> of a string to a property of the plain object
  \<open>result\<close>. The name \<open>__proto__\<close> is the accessor inherited from \<open>Object.prototype\<close>, and
  its setter ignores a string: the object is left as it is.
\<close>

definition assign_string ::
  "string \<Rightarrow> string \<Rightarrow> (string \<times> string) list \<Rightarrow> (string \<times> string) list" where
  "assign_string name v result =
     (if name = ''__proto__'' then result else set_prop name v result)"

definition externals ::
  "manifest \<Rightarrow> (string \<times> string) list option \<Rightarrow> bool \<Rightarrow> string list option \<Rightarrow>
     string list option \<Rightarrow> error + (string \<times> string) list" where
  "externals packageJSON extras addDev defaults ignore =
     (case dependencies packageJSON of
        None \<Rightarrow> Inl TypeError
      | Some dependencies_obj \<Rightarrow>
          (case (if addDev then devDependencies packageJSON else Some []) of
             None \<Rightarrow> Inl TypeError
           | Some devDependencies_obj \<Rightarrow>
               (let deps = map fst dependencies_obj;
                    devDeps = map fst devDependencies_obj;
                    defaultsDeps = (case defaults of
                                      None \<Rightarrow> [''webpack-node-utils'', ''colors/safe'']
                                    | Some d \<Rightarrow> d);
                    ignoreDeps = (case ignore of
                                    None \<Rightarrow> [''normalize.css'', ''font-awesome'',
                                              ''react-tap-event-plugin'']
                                  | Some i \<Rightarrow> i);
                    result = fold (\<lambda>pckg result.
                                if arr_indexOf ignoreDeps pckg = - 1
                                then assign_string pckg (''commonjs '' @ pckg) result
                                else result)
                              (defaultsDeps @ deps @ devDeps) []
                in Inr (case extras of
                          None \<Rightarrow> result
                        | Some ex \<Rightarrow>
                            fold (\<lambda>name result.
                                    assign_string name
                                      (''commonjs '' @ (case map_of ex name of
                                                          None \<Rightarrow> ''undefined''
                                                        | Some p \<Rightarrow> p))
                                      result)
                              (map fst ex) result))))"

section \<open>Example inputs\<close>

text \<open>
  Inputs for the examples below: the artifacts of the runner's tests, a stand-in for
  \<open>path.resolve\<close>, a configuration directory shaped like the one in the README (a
  configuration that extends \<open>base\<close>, with a named variant that hands back its
  parameters), a configuration that extends itself, and the dependencies of the
  repository's own \<open>package.json\<close>.
\<close>

definition example_resolve :: "string \<Rightarrow> string" where
  "example_resolve p = ''/project/'' @ p"

definition test_compilation :: compilation where
  "test_compilation =
     \<lparr>assets = [(''backend'', \<lparr>existsAt = ''./backend.js''\<rparr>),
                (''app'', \<lparr>existsAt = ''./app.js''\<rparr>)]\<rparr>"

definition example_modules :: "string \<Rightarrow> jsmodule option" where
  "example_modules p =
     (if p = ''/project/.webpack/app.production.js'' then
        Some \<lparr>default_export =
                 Some (\<lambda>params. [(''extends'', JString ''base''),
                                  (''name'', JString ''app-production'')]),
              named_exports =
                (\<lambda>n. if n = ''custom''
                      then Some (\<lambda>params. [(''name'', JString ''app-production-custom''),
                                            (''params'', JObject params)])
                      else None)\<rparr>
      else if p = ''/project/.webpack/base.js'' then
        Some \<lparr>default_export =
                 Some (\<lambda>params. [(''name'', JString ''base''),
                                  (''fromBase'', JBoolean True)]),
              named_exports = (\<lambda>n. None)\<rparr>
      else if p = ''/project/.webpack/loop.js'' then
        Some \<lparr>default_export = Some (\<lambda>params. [(''extends'', JString ''loop'')]),
              named_exports = (\<lambda>n. None)\<rparr>
      else None)"

definition example_host :: host where
  "example_host =
     \<lparr>rootPath = ''/project'',
      path_join = (\<lambda>a b. a @ ''/'' @ b),
      modules = example_modules,
      merge = (\<lambda>a b. object_assign (object_assign [] a) b),
      date_now = 1520000000000\<rparr>"

definition example_manifest :: manifest where
  "example_manifest =
     \<lparr>dependencies = Some [(''webpack-merge'', ''4.1.2''), (''colors'', ''1.1.2'')],
      devDependencies = Some
        [(''eslint'', ''4.18.2''), (''eslint-config-airbnb-base'', ''12.1.0''),
         (''eslint-plugin-import'', ''2.9.0''), (''eslint-plugin-node'', ''6.0.1''),
         (''wootils'', ''1.1.1''), (''jest-ex'', ''4.0.0''), (''jest-cli'', ''22.4.2''),
         (''jasmine-expect'', ''3.8.3''), (''babel-preset-env'', ''1.6.1''),
         (''esdoc'', ''1.0.4''), (''esdoc-standard-plugin'', ''1.0.0''),
         (''esdoc-node'', ''1.0.3''), (''esdoc-uploader'', ''1.0.1''),
         (''coveralls'', ''3.0.0'')]\<rparr>"

section \<open>Auxiliary facts\<close>

subsection \<open>Arrays and candidates\<close>

lemma arr_indexOf_ge: "- 1 \<le> arr_indexOf xs x"
  by (induction xs) (auto simp: Let_def)

lemma arr_indexOf_neg: "arr_indexOf xs x = - 1 \<longleftrightarrow> x \<notin> set xs"
proof (induction xs)
  case Nil
  then show ?case by simp
next
  case (Cons y ys)
  then show ?case using arr_indexOf_ge [of ys x] by (auto simp: Let_def)
qed

lemma entries_of_keys: "set (entries_of cp c) \<subseteq> fst ` set (assets c)"
  by (cases cp) auto

lemma map_of_key: "a \<in> fst ` set xs \<Longrightarrow> \<exists>x. map_of xs a = Some x"
  by (metis domIff dom_map_of_conv_image_fst option.exhaust)

lemma truthy_Some: "truthy v \<Longrightarrow> \<exists>s. v = Some s \<and> s \<noteq> []"
  by (cases v) (auto simp: truthy_def)

subsection \<open>The branches of \<open>_onAssetsEmitted\<close>\<close>

text \<open>One equation for each path through the handler: what it returns and what it logs.\<close>

lemma onAssetsEmitted_latched:
  "r_setup this \<Longrightarrow> onAssetsEmitted cp pr c (this, out) = Inr (this, out @ [Callback])"
  by (simp add: onAssetsEmitted_def)

lemma onAssetsEmitted_missing:
  assumes "\<not> r_setup this" and "r_entry this = Some e" and "e \<noteq> []"
    and "e \<notin> set (entries_of cp c)"
  shows "onAssetsEmitted cp pr c (this, out) =
    Inr (this\<lparr>r_setup := True, r_entry := None\<rparr>,
         out @ [log None None,
                logError (''The required entry ('' @ e @ '') doesn't exist''),
                logAvailableEntries (entries_of cp c)] @ [Callback])"
  using assms arr_indexOf_neg [of "entries_of cp c" e]
  by (simp add: onAssetsEmitted_def Let_def truthy_def template_def)

lemma onAssetsEmitted_found:
  assumes "\<not> r_setup this" and "r_entry this = Some e" and "e \<noteq> []"
    and "e \<in> set (entries_of cp c)" and "map_of (assets c) e = Some a"
  shows "onAssetsEmitted cp pr c (this, out) =
    Inr (this\<lparr>r_setup := True, r_entryPath := Some (pr (existsAt a))\<rparr>,
         out @ [log None None,
                logSuccess (''Using the following entry: '' @ e),
                logSuccess (''Entry file: '' @ pr (existsAt a))] @ [Callback])"
  using assms arr_indexOf_neg [of "entries_of cp c" e]
  by (simp add: onAssetsEmitted_def Let_def truthy_def template_def)

lemma onAssetsEmitted_only:
  assumes "\<not> r_setup this" and "\<not> truthy (r_entry this)"
    and "entries_of cp c = [e]" and "e \<noteq> []" and "map_of (assets c) e = Some a"
  shows "onAssetsEmitted cp pr c (this, out) =
    Inr (this\<lparr>r_setup := True, r_entry := Some e, r_entryPath := Some (pr (existsAt a))\<rparr>,
         out @ [log None None,
                logSuccess (''Using the only available entry: '' @ e),
                logSuccess (''Entry file: '' @ pr (existsAt a))] @ [Callback])"
  using assms
  by (simp add: onAssetsEmitted_def Let_def truthy_def template_def)

lemma onAssetsEmitted_only_empty:
  assumes "\<not> r_setup this" and "\<not> truthy (r_entry this)"
    and "entries_of cp c = [[]]"
  shows "onAssetsEmitted cp pr c (this, out) =
    Inr (this\<lparr>r_setup := True, r_entry := Some []\<rparr>,
         out @ [log None None,
                logSuccess (''Using the only available entry: '')] @ [Callback])"
  using assms
  by (simp add: onAssetsEmitted_def Let_def truthy_def template_def)

lemma onAssetsEmitted_first:
  assumes "\<not> r_setup this" and "\<not> truthy (r_entry this)"
    and "entries_of cp c = e # e' # es" and "e \<noteq> []" and "map_of (assets c) e = Some a"
  shows "onAssetsEmitted cp pr c (this, out) =
    Inr (this\<lparr>r_setup := True, r_entry := Some e, r_entryPath := Some (pr (existsAt a))\<rparr>,
         out @ [log None None,
                logWarn (''Doing fallback to the first entry: '' @ e),
                logAvailableEntries (entries_of cp c),
                logSuccess (''Entry file: '' @ pr (existsAt a))] @ [Callback])"
  using assms
  by (simp add: onAssetsEmitted_def Let_def truthy_def template_def)

lemma onAssetsEmitted_first_empty:
  assumes "\<not> r_setup this" and "\<not> truthy (r_entry this)"
    and "entries_of cp c = [] # e' # es"
  shows "onAssetsEmitted cp pr c (this, out) =
    Inr (this\<lparr>r_setup := True, r_entry := Some []\<rparr>,
         out @ [log None None,
                logWarn (''Doing fallback to the first entry: ''),
                logAvailableEntries (entries_of cp c)] @ [Callback])"
  using assms
  by (simp add: onAssetsEmitted_def Let_def truthy_def template_def)

lemma onAssetsEmitted_none:
  assumes "\<not> r_setup this" and "\<not> truthy (r_entry this)"
    and "entries_of cp c = []"
  shows "onAssetsEmitted cp pr c (this, out) =
    Inr (this\<lparr>r_setup := True\<rparr>,
         out @ [log None None,
                logSuccess (''Using the following entry: '' @ template (r_entry this))] @ [Callback])"
  using assms
  by (simp add: onAssetsEmitted_def Let_def)

subsection \<open>The shape of every \<open>after-emit\<close>\<close>

text \<open>
  Whatever the branch, the handler returns normally, adds console lines and then one
  call of the continuation, sets \<open>_setup\<close>, and leaves \<open>_running\<close> and \<open>_instance\<close> alone.
\<close>

lemma is_ConsoleLog_log [simp]:
  "is_ConsoleLog (log m col)" "is_ConsoleLog (logInfo s)" "is_ConsoleLog (logError s)"
  "is_ConsoleLog (logWarn s)" "is_ConsoleLog (logSuccess s)"
  "is_ConsoleLog (logAvailableEntries es)"
  by (simp_all add: log_def logInfo_def logError_def logWarn_def logSuccess_def
      logAvailableEntries_def Let_def)

lemma shapeI:
  assumes "onAssetsEmitted cp pr c (this, out) = Inr (this', out @ new @ [Callback])"
    and "\<forall>e \<in> set new. is_ConsoleLog e" and "r_setup this'"
    and "r_setup this \<longrightarrow> this' = this \<and> new = []"
    and "r_running this' = r_running this" and "r_instance this' = r_instance this"
  shows "\<exists>this' new. onAssetsEmitted cp pr c (this, out) = Inr (this', out @ new @ [Callback])
      \<and> (\<forall>e \<in> set new. is_ConsoleLog e) \<and> r_setup this'
      \<and> (r_setup this \<longrightarrow> this' = this \<and> new = [])
      \<and> r_running this' = r_running this \<and> r_instance this' = r_instance this"
  using assms by blast

lemma entries_asset: "a \<in> set (entries_of cp c) \<Longrightarrow> \<exists>x. map_of (assets c) a = Some x"
  using entries_of_keys [of cp c] map_of_key [of a "assets c"] by auto

lemma onAssetsEmitted_shape:
  "\<exists>this' new. onAssetsEmitted cp pr c (this, out) = Inr (this', out @ new @ [Callback])
      \<and> (\<forall>e \<in> set new. is_ConsoleLog e) \<and> r_setup this'
      \<and> (r_setup this \<longrightarrow> this' = this \<and> new = [])
      \<and> r_running this' = r_running this \<and> r_instance this' = r_instance this"
proof (cases "r_setup this")
  case True
  then show ?thesis
    using shapeI [of cp pr c this out this "[]"] by (simp add: onAssetsEmitted_latched)
next
  case unset: False
  let ?es = "entries_of cp c"
  show ?thesis
  proof (cases "truthy (r_entry this)")
    case True
    then obtain e where e: "r_entry this = Some e" "e \<noteq> []"
      using truthy_Some by blast
    show ?thesis
    proof (cases "e \<in> set ?es")
      case True
      then obtain a where a: "map_of (assets c) e = Some a"
        using entries_asset by blast
      show ?thesis
        by (rule shapeI [OF onAssetsEmitted_found [OF unset e True a, of pr out]])
          (use unset in simp_all)
    next
      case False
      show ?thesis
        by (rule shapeI [OF onAssetsEmitted_missing [OF unset e False, of pr out]])
          (use unset in simp_all)
    qed
  next
    case none: False
    show ?thesis
    proof (cases ?es)
      case Nil
      show ?thesis
        by (rule shapeI [OF onAssetsEmitted_none [OF unset none Nil, of pr out]])
          (use unset in simp_all)
    next
      case (Cons e es')
      then have "e \<in> set ?es" by simp
      then obtain a where a: "map_of (assets c) e = Some a"
        using entries_asset by blast
      show ?thesis
      proof (cases es')
        case Nil
        show ?thesis
        proof (cases "e = []")
          case True
          with Cons Nil have es: "?es = [[]]" by simp
          show ?thesis
            by (rule shapeI [OF onAssetsEmitted_only_empty [OF unset none es, of pr out]])
              (use unset in simp_all)
        next
          case False
          from Cons Nil have es: "?es = [e]" by simp
          show ?thesis
            by (rule shapeI [OF onAssetsEmitted_only [OF unset none es False a, of pr out]])
              (use unset in simp_all)
        qed
      next
        case more: (Cons e' es'')
        show ?thesis
        proof (cases "e = []")
          case True
          with Cons more have es: "?es = [] # e' # es''" by simp
          show ?thesis
            by (rule shapeI [OF onAssetsEmitted_first_empty [OF unset none es, of pr out]])
              (use unset in simp_all)
        next
          case False
          from Cons more have es: "?es = e # e' # es''" by simp
          show ?thesis
            by (rule shapeI [OF onAssetsEmitted_first [OF unset none es False a, of pr out]])
              (use unset in simp_all)
        qed
      qed
    qed
  qed
qed

subsection \<open>Sequences of events\<close>

lemma trigger_inert:
  assumes "r_setup this" and "\<not> truthy (r_entry this)"
  shows "trigger cp pr ev (this, out) =
    Inr (this, out @ (if is_AfterEmit ev then [Callback] else []))"
  using assms
  by (cases ev) (simp_all add: onAssetsEmitted_latched onCompilationStarts_def
      onCompilationEnds_def)

lemma triggers_inert:
  assumes "r_setup this" and "\<not> truthy (r_entry this)"
  shows "triggers cp pr evs (this, out) =
    Inr (this, out @ replicate (length (filter is_AfterEmit evs)) Callback)"
  using assms
proof (induction evs arbitrary: out)
  case Nil
  then show ?case by simp
next
  case (Cons ev evs)
  then show ?case by (simp add: trigger_inert)
qed

lemma triggers_latched:
  assumes "r_setup this"
  shows "triggers cp pr (map AfterEmit cs) (this, out) =
    Inr (this, out @ replicate (length cs) Callback)"
  using assms
proof (induction cs arbitrary: out)
  case Nil
  then show ?case by simp
next
  case (Cons c cs)
  then show ?case by (simp add: onAssetsEmitted_latched)
qed

subsection \<open>Substrings and the script pattern\<close>

text \<open>
  \<open>indexOf\<close> finds a substring exactly when there is one, and the pattern \<open>/\.js$/i\<close>
  matches exactly the strings that end in a dot, \<open>j\<close> or \<open>J\<close>, and \<open>s\<close> or \<open>S\<close>.
\<close>

lemma str_indexOf_ge: "- 1 \<le> str_indexOf s sub"
  by (induction s) (auto simp: Let_def)

lemma str_indexOf_found: "0 \<le> str_indexOf s sub \<longleftrightarrow> (\<exists>p q. s = p @ sub @ q)"
proof (induction s)
  case Nil
  then show ?case by auto
next
  case (Cons c cs)
  show ?case
  proof (cases "take (length sub) (c # cs) = sub")
    case True
    then have "c # cs = [] @ sub @ drop (length sub) (c # cs)"
      by (metis append_Nil append_take_drop_id)
    then have "\<exists>p q. c # cs = p @ sub @ q" by blast
    with True show ?thesis by simp
  next
    case False
    have "(\<exists>p q. c # cs = p @ sub @ q) \<longleftrightarrow> (\<exists>p q. cs = p @ sub @ q)"
    proof
      assume "\<exists>p q. c # cs = p @ sub @ q"
      then obtain p q where pq: "c # cs = p @ sub @ q" by blast
      show "\<exists>p q. cs = p @ sub @ q"
      proof (cases p)
        case Nil
        with pq have "take (length sub) (c # cs) = sub" by simp
        with False show ?thesis by simp
      next
        case (Cons a p')
        with pq have "cs = p' @ sub @ q" by simp
        then show ?thesis by blast
      qed
    next
      assume "\<exists>p q. cs = p @ sub @ q"
      then obtain p q where "cs = p @ sub @ q" by blast
      then have "c # cs = (c # p) @ sub @ q" by simp
      then show "\<exists>p q. c # cs = p @ sub @ q" by blast
    qed
    with False Cons.IH show ?thesis by (auto simp: Let_def)
  qed
qed

lemma match_js_iff:
  "match_js p \<longleftrightarrow>
     (\<exists>q j s. p = q @ [CHR ''.'', j, s] \<and> (j = CHR ''j'' \<or> j = CHR ''J'') \<and>
              (s = CHR ''s'' \<or> s = CHR ''S''))"
proof
  assume "match_js p"
  then obtain s j d r where r: "rev p = s # j # d # r"
    and c: "d = CHR ''.''" "j = CHR ''j'' \<or> j = CHR ''J''" "s = CHR ''s'' \<or> s = CHR ''S''"
    by (auto simp: match_js_def split: list.splits)
  from r have "p = rev r @ [d, j, s]"
    by (metis append.assoc append_Cons append_Nil rev.simps(2) rev_rev_ident)
  with c show "\<exists>q j s. p = q @ [CHR ''.'', j, s] \<and> (j = CHR ''j'' \<or> j = CHR ''J'') \<and>
      (s = CHR ''s'' \<or> s = CHR ''S'')"
    by blast
next
  assume "\<exists>q j s. p = q @ [CHR ''.'', j, s] \<and> (j = CHR ''j'' \<or> j = CHR ''J'') \<and>
      (s = CHR ''s'' \<or> s = CHR ''S'')"
  then show "match_js p" by (auto simp: match_js_def)
qed

lemma is_Fork_log [simp]:
  "\<not> is_Fork (log m col)" "\<not> is_Fork (logInfo s)" "\<not> is_Fork (logError s)"
  "\<not> is_Fork (logWarn s)" "\<not> is_Fork (logSuccess s)"
  "\<not> is_Fork (logAvailableEntries es)"
  by (simp_all add: log_def logInfo_def logError_def logWarn_def logSuccess_def
      logAvailableEntries_def Let_def)

lemma is_Kill_log [simp]:
  "\<not> is_Kill (log m col)" "\<not> is_Kill (logInfo s)" "\<not> is_Kill (logError s)"
  "\<not> is_Kill (logWarn s)" "\<not> is_Kill (logSuccess s)"
  "\<not> is_Kill (logAvailableEntries es)"
  by (simp_all add: log_def logInfo_def logError_def logWarn_def logSuccess_def
      logAvailableEntries_def Let_def)

lemma str_includes_iff: "str_includes s sub \<longleftrightarrow> (\<exists>p q. s = p @ sub @ q)"
  using str_indexOf_found [of s sub] str_indexOf_ge [of s sub]
  by (auto simp: str_includes_def)

lemma str_indexOf_neg_iff: "str_indexOf s sub < 0 \<longleftrightarrow> \<not> (\<exists>p q. s = p @ sub @ q)"
  using str_indexOf_found [of s sub] by auto

subsection \<open>Objects\<close>

lemma map_of_set_prop: "map_of (set_prop k v obj) = (map_of obj)(k \<mapsto> v)"
  by (induction obj) (auto simp: fun_eq_iff)

lemma keys_set_prop: "fst ` set (set_prop k v obj) = insert k (fst ` set obj)"
  by (induction obj) force+

lemma distinct_set_prop: "distinct (map fst obj) \<Longrightarrow> distinct (map fst (set_prop k v obj))"
proof (induction obj)
  case Nil
  then show ?case by simp
next
  case (Cons kv obj)
  then show ?case
    using keys_set_prop [of k v obj] by (cases kv) (auto simp: image_iff)
qed

lemma map_of_fold_guarded:
  "map_of (fold (\<lambda>x r. if P x then set_prop x (g x) r else r) xs r0) name =
     (if name \<in> set xs \<and> P name then Some (g name) else map_of r0 name)"
  by (induction xs arbitrary: r0) (auto simp: map_of_set_prop)

lemma distinct_fold_guarded:
  "distinct (map fst r0) \<Longrightarrow>
   distinct (map fst (fold (\<lambda>x r. if P x then set_prop x (g x) r else r) xs r0))"
  by (induction xs arbitrary: r0) (auto simp: distinct_set_prop)

lemma map_of_fold_set:
  "map_of (fold (\<lambda>x r. set_prop x (g x) r) xs r0) name =
     (if name \<in> set xs then Some (g name) else map_of r0 name)"
  using map_of_fold_guarded [of "\<lambda>_. True" g xs r0 name] by simp

lemma distinct_fold_set:
  "distinct (map fst r0) \<Longrightarrow> distinct (map fst (fold (\<lambda>x r. set_prop x (g x) r) xs r0))"
  using distinct_fold_guarded [of r0 "\<lambda>_. True" g xs] by simp

lemma fold_assign_string_guarded:
  "(\<lambda>x r. if P x then assign_string x (g x) r else r) =
   (\<lambda>x r. if P x \<and> x \<noteq> ''__proto__'' then set_prop x (g x) r else r)"
  by (auto simp: fun_eq_iff assign_string_def)

lemma fold_assign_string:
  "(\<lambda>x r. assign_string x (g x) r) =
   (\<lambda>x r. if x \<noteq> ''__proto__'' then set_prop x (g x) r else r)"
  by (auto simp: fun_eq_iff assign_string_def)

lemma get_prop_delete_prop: "get_prop (delete_prop obj k) k = JUndefined"
proof -
  have "map_of (filter (\<lambda>(k', v). k' \<noteq> k) obj) k = None"
    by (induction obj) auto
  then show ?thesis by (simp add: get_prop_def delete_prop_def)
qed

lemma get_prop_delete_prop_other: "k' \<noteq> k \<Longrightarrow> get_prop (delete_prop obj k) k' = get_prop obj k'"
proof -
  assume "k' \<noteq> k"
  then have "map_of (filter (\<lambda>(a, v). a \<noteq> k) obj) k' = map_of obj k'"
    by (induction obj) auto
  then show ?thesis by (simp add: get_prop_def delete_prop_def)
qed

subsection \<open>The configuration loader\<close>

lemma loadConfig_self_cycle:
  assumes "require h (path_join h directory (name @ ''.js'')) = Some m"
    and "default_export m = Some f"
    and "js_truthy (get_prop (f params) ''extends'')"
    and "toString (get_prop (f params) ''extends'') = name"
  shows "loadConfig n h directory name params None = None"
  using assms by (induction n) (simp_all add: truthy_def)

lemma map_of_object_assign_absent:
  "map_of source k = None \<Longrightarrow> map_of (object_assign target source) k = map_of target k"
  unfolding object_assign_def
proof (induction source arbitrary: target)
  case Nil
  then show ?case by simp
next
  case (Cons kv source)
  obtain a v where kv: "kv = (a, v)" by (cases kv)
  with Cons.prems have "a \<noteq> k" "map_of source k = None" by (auto split: if_splits)
  with Cons.IH [of "set_prop a v target"] kv show ?case
    by (simp add: map_of_set_prop)
qed


subsection \<open>The example host\<close>

lemma example_host_simps:
  "rootPath example_host = ''/project''"
  "path_join example_host a b = a @ ''/'' @ b"
  "modules example_host = example_modules"
  "merge example_host x y = object_assign (object_assign [] x) y"
  "date_now example_host = 1520000000000"
  by (simp_all add: example_host_def)

subsection \<open>The first \<open>after-emit\<close>\<close>

text \<open>
  What the handler does while \<open>_setup\<close> is unset: the lines it logs, the entry it
  selects in each branch, and the path it stores.
\<close>

lemma onAssetsEmitted_first_event:
  assumes unset: "\<not> r_setup this"
  shows "\<exists>this' sel.
     onAssetsEmitted cp pr c (this, out) =
       Inr (this', out @ [log None None] @ sel @
              (if truthy (r_entry this')
               then [logSuccess (''Entry file: '' @ template (r_entryPath this'))] else []) @
              [Callback])
   \<and> (truthy (r_entry this) \<and> the (r_entry this) \<notin> set (entries_of cp c) \<longrightarrow>
        r_entry this' = None \<and>
        sel = [logError (''The required entry ('' @ the (r_entry this) @ '') doesn't exist''),
               logAvailableEntries (entries_of cp c)])
   \<and> (\<not> truthy (r_entry this) \<and> length (entries_of cp c) = 1 \<longrightarrow>
        r_entry this' = Some (entries_of cp c ! 0) \<and>
        sel = [logSuccess (''Using the only available entry: '' @ entries_of cp c ! 0)])
   \<and> (\<not> truthy (r_entry this) \<and> length (entries_of cp c) > 1 \<longrightarrow>
        r_entry this' = Some (entries_of cp c ! 0) \<and>
        sel = [logWarn (''Doing fallback to the first entry: '' @ entries_of cp c ! 0),
               logAvailableEntries (entries_of cp c)])
   \<and> (truthy (r_entry this) \<and> the (r_entry this) \<in> set (entries_of cp c) \<longrightarrow>
        r_entry this' = r_entry this \<and>
        sel = [logSuccess (''Using the following entry: '' @ the (r_entry this))])
   \<and> (\<not> truthy (r_entry this) \<and> entries_of cp c = [] \<longrightarrow>
        r_entry this' = r_entry this \<and>
        sel = [logSuccess (''Using the following entry: '' @ template (r_entry this))])
   \<and> (truthy (r_entry this') \<longrightarrow>
        (\<exists>a. map_of (assets c) (the (r_entry this')) = Some a \<and>
             r_entryPath this' = Some (pr (existsAt a))))
   \<and> (\<not> truthy (r_entry this') \<longrightarrow> r_entryPath this' = r_entryPath this)
   \<and> r_setup this'
   \<and> r_running this' = r_running this \<and> r_instance this' = r_instance this
   \<and> (\<forall>e \<in> set sel. is_ConsoleLog e)"
proof (cases "truthy (r_entry this)")
  case True
  then obtain e where e: "r_entry this = Some e" "e \<noteq> []"
    using truthy_Some by blast
  show ?thesis
  proof (cases "e \<in> set (entries_of cp c)")
    case True
    then obtain a where a: "map_of (assets c) e = Some a"
      using entries_asset by blast
    show ?thesis
      apply (rule exI [of _ "this\<lparr>r_setup := True, r_entryPath := Some (pr (existsAt a))\<rparr>"])
      apply (rule exI [of _ "[logSuccess (''Using the following entry: '' @ e)]"])
      using e True a
      apply (simp add: onAssetsEmitted_found [OF unset e True a] truthy_def template_def)
      done
  next
    case False
    show ?thesis
      apply (rule exI [of _ "this\<lparr>r_setup := True, r_entry := None\<rparr>"])
      apply (rule exI [of _ "[logError (''The required entry ('' @ e @ '') doesn't exist''),
                             logAvailableEntries (entries_of cp c)]"])
      using e False
      apply (simp add: onAssetsEmitted_missing [OF unset e False] truthy_def)
      done
  qed
next
  case none: False
  show ?thesis
  proof (cases "entries_of cp c")
    case Nil
    show ?thesis
      apply (rule exI [of _ "this\<lparr>r_setup := True\<rparr>"])
      apply (rule exI [of _ "[logSuccess (''Using the following entry: '' @ template (r_entry this))]"])
      using none Nil
      apply (simp add: onAssetsEmitted_none [OF unset none Nil])
      done
  next
    case (Cons e es')
    then have "e \<in> set (entries_of cp c)" by simp
    then obtain a where a: "map_of (assets c) e = Some a"
      using entries_asset by blast
    show ?thesis
    proof (cases es')
      case Nil
      show ?thesis
      proof (cases "e = []")
        case True
        with Cons Nil have es: "entries_of cp c = [[]]" by simp
        show ?thesis
          apply (rule exI [of _ "this\<lparr>r_setup := True, r_entry := Some []\<rparr>"])
          apply (rule exI [of _ "[logSuccess (''Using the only available entry: '')]"])
          using none es
          apply (simp add: onAssetsEmitted_only_empty [OF unset none es] truthy_def)
          done
      next
        case False
        from Cons Nil have es: "entries_of cp c = [e]" by simp
        show ?thesis
          apply (rule exI [of _ "this\<lparr>r_setup := True, r_entry := Some e,
                                      r_entryPath := Some (pr (existsAt a))\<rparr>"])
          apply (rule exI [of _ "[logSuccess (''Using the only available entry: '' @ e)]"])
          using none es False a
          apply (simp add: onAssetsEmitted_only [OF unset none es False a] truthy_def template_def)
          done
      qed
    next
      case more: (Cons e' es'')
      show ?thesis
      proof (cases "e = []")
        case True
        with Cons more have es: "entries_of cp c = [] # e' # es''" by simp
        show ?thesis
          apply (rule exI [of _ "this\<lparr>r_setup := True, r_entry := Some []\<rparr>"])
          apply (rule exI [of _ "[logWarn (''Doing fallback to the first entry: ''),
                                 logAvailableEntries (entries_of cp c)]"])
          using none es
          apply (simp add: onAssetsEmitted_first_empty [OF unset none es] truthy_def)
          done
      next
        case False
        from Cons more have es: "entries_of cp c = e # e' # es''" by simp
        show ?thesis
          apply (rule exI [of _ "this\<lparr>r_setup := True, r_entry := Some e,
                                      r_entryPath := Some (pr (existsAt a))\<rparr>"])
          apply (rule exI [of _ "[logWarn (''Doing fallback to the first entry: '' @ e),
                                 logAvailableEntries (entries_of cp c)]"])
          using none es False a
          apply (simp add: onAssetsEmitted_first [OF unset none es False a] truthy_def
              template_def)
          done
      qed
    qed
  qed
qed

section \<open>The runner: claims C1, C2, C3, C6, C7 and C10\<close>

text \<open>
  Claim C1. With an entry selected (\<open>this._entry\<close> truthy): \<open>done\<close> while not running
  calls \<open>fork\<close> exactly once, with the stored entry path, sets \<open>_running\<close> and stores the
  new handle; \<open>done\<close> while running forks nothing and leaves the state as it is;
  \<open>compile\<close> while running with a handle \<open>h\<close> held kills exactly \<open>h\<close>, clears the handle and
  unsets \<open>_running\<close>; \<open>compile\<close> while not running, or with no handle held, kills nothing
  and leaves the state as it is.
\<close>

theorem supervisor_done_compile:
  assumes "truthy (r_entry this)"
  shows "(\<not> r_running this \<longrightarrow>
            onCompilationEnds (this, out) =
              (this\<lparr>r_instance := Some (length (filter is_Fork out)), r_running := True\<rparr>,
               out @ [Fork (r_entryPath this), log None None,
                      logSuccess ''Starting bundle process''])
          \<and> length (filter is_Fork (snd (onCompilationEnds (this, out)))) =
              Suc (length (filter is_Fork out)))
       \<and> (r_running this \<longrightarrow> onCompilationEnds (this, out) = (this, out))
       \<and> (r_running this \<and> r_instance this = Some h \<longrightarrow>
            onCompilationStarts (this, out) =
              (this\<lparr>r_instance := None, r_running := False\<rparr>,
               out @ [logInfo ''Stopping bundle process'', Kill h])
          \<and> length (filter is_Kill (snd (onCompilationStarts (this, out)))) =
              Suc (length (filter is_Kill out)))
       \<and> (\<not> r_running this \<or> r_instance this = None \<longrightarrow>
            onCompilationStarts (this, out) = (this, out))"
  using assms by (auto simp: onCompilationEnds_def onCompilationStarts_def)

text \<open>The cycle of the tests: start the bundle, stop it, and the two idle cases.\<close>

theorem supervisor_done_compile_witness:
  "onCompilationEnds
     (\<lparr>r_entry = Some ''app'', r_entryPath = Some ''/project/app.js'', r_running = False,
       r_instance = None, r_setup = True\<rparr>, []) =
     (\<lparr>r_entry = Some ''app'', r_entryPath = Some ''/project/app.js'', r_running = True,
       r_instance = Some 0, r_setup = True\<rparr>,
      [Fork (Some ''/project/app.js''), log None None, logSuccess ''Starting bundle process''])
   \<and> onCompilationStarts
     (\<lparr>r_entry = Some ''app'', r_entryPath = Some ''/project/app.js'', r_running = True,
       r_instance = Some 0, r_setup = True\<rparr>, [Fork (Some ''/project/app.js'')]) =
     (\<lparr>r_entry = Some ''app'', r_entryPath = Some ''/project/app.js'', r_running = False,
       r_instance = None, r_setup = True\<rparr>,
      [Fork (Some ''/project/app.js''), logInfo ''Stopping bundle process'', Kill 0])
   \<and> onCompilationEnds
     (\<lparr>r_entry = Some ''app'', r_entryPath = Some ''/project/app.js'', r_running = True,
       r_instance = Some 0, r_setup = True\<rparr>, [Fork (Some ''/project/app.js'')]) =
     (\<lparr>r_entry = Some ''app'', r_entryPath = Some ''/project/app.js'', r_running = True,
       r_instance = Some 0, r_setup = True\<rparr>, [Fork (Some ''/project/app.js'')])
   \<and> onCompilationStarts
     (\<lparr>r_entry = Some ''app'', r_entryPath = Some ''/project/app.js'', r_running = False,
       r_instance = None, r_setup = True\<rparr>, []) =
     (\<lparr>r_entry = Some ''app'', r_entryPath = Some ''/project/app.js'', r_running = False,
       r_instance = None, r_setup = True\<rparr>, [])"
proof -
  have t: "truthy (Some ''app'')" by (simp add: truthy_def)
  show ?thesis
    using
      supervisor_done_compile [of "\<lparr>r_entry = Some ''app'', r_entryPath = Some ''/project/app.js'',
               r_running = False, r_instance = None, r_setup = True\<rparr>" "[]" 0]
      supervisor_done_compile [of "\<lparr>r_entry = Some ''app'', r_entryPath = Some ''/project/app.js'',
               r_running = True, r_instance = Some 0, r_setup = True\<rparr>"
             "[Fork (Some ''/project/app.js'')]" 0]
      t
    by simp
qed



text \<open>
  The candidates of the two copies. In part 002 they are exactly the artifact names that
  contain no \<open>hot-update\<close> fragment and whose \<open>existsAt\<close> path ends in \<open>.js\<close>, in
  either case of the letters (such a path is not empty). In \<open>src/runner.js\<close> they are
  exactly the artifact names that contain no \<open>hot-update\<close> fragment, whatever their
  path. The list of part 002 is the list of \<open>src/runner.js\<close> filtered by the path
  condition, in the same order.
\<close>

lemma entries_of_iff:
  "(a \<in> set (entries_of Part_002 c) \<longleftrightarrow>
      a \<in> fst ` set (assets c) \<and> \<not> (\<exists>p q. a = p @ ''hot-update'' @ q) \<and>
      (\<exists>x q j s. map_of (assets c) a = Some x \<and> existsAt x = q @ [CHR ''.'', j, s] \<and>
          (j = CHR ''j'' \<or> j = CHR ''J'') \<and> (s = CHR ''s'' \<or> s = CHR ''S'')))
 \<and> (a \<in> set (entries_of Runner_js c) \<longleftrightarrow>
      a \<in> fst ` set (assets c) \<and> \<not> (\<exists>p q. a = p @ ''hot-update'' @ q))
 \<and> entries_of Part_002 c =
      filter (\<lambda>a. \<exists>x. map_of (assets c) a = Some x \<and> existsAt x \<noteq> [] \<and> match_js (existsAt x))
        (entries_of Runner_js c)"
proof -
  have m: "(\<exists>x. map_of (assets c) a = Some x \<and> existsAt x \<noteq> [] \<and> match_js (existsAt x)) \<longleftrightarrow>
      (\<exists>x q j s. map_of (assets c) a = Some x \<and> existsAt x = q @ [CHR ''.'', j, s] \<and>
          (j = CHR ''j'' \<or> j = CHR ''J'') \<and> (s = CHR ''s'' \<or> s = CHR ''S''))"
    unfolding match_js_iff by auto
  have 1: "a \<in> set (entries_of Part_002 c) \<longleftrightarrow>
      a \<in> fst ` set (assets c) \<and> \<not> (\<exists>p q. a = p @ ''hot-update'' @ q) \<and>
      (\<exists>x. map_of (assets c) a = Some x \<and> existsAt x \<noteq> [] \<and> match_js (existsAt x))"
    by (auto simp: str_includes_iff split: option.splits)
  have 2: "a \<in> set (entries_of Runner_js c) \<longleftrightarrow>
      a \<in> fst ` set (assets c) \<and> \<not> (\<exists>p q. a = p @ ''hot-update'' @ q)"
    by (auto simp: str_indexOf_neg_iff)
  have 3: "entries_of Part_002 c =
      filter (\<lambda>a. \<exists>x. map_of (assets c) a = Some x \<and> existsAt x \<noteq> [] \<and> match_js (existsAt x))
        (entries_of Runner_js c)"
    by (auto simp: str_includes_iff str_indexOf_neg_iff split: option.splits
        intro!: filter_cong)
  from 1 2 3 show ?thesis unfolding m by blast
qed

text \<open>A script is a candidate in both copies; a hot-update fragment and a stylesheet are not.\<close>

lemma entries_of_iff_examples:
  "''app'' \<in> set (entries_of Part_002 test_compilation)
 \<and> ''app'' \<in> set (entries_of Runner_js test_compilation)
 \<and> ''main.hot-update.js'' \<notin> set (entries_of Part_002
        \<lparr>assets = [(''main.hot-update.js'', \<lparr>existsAt = ''/dist/main.hot-update.js''\<rparr>)]\<rparr>)
 \<and> ''main.css'' \<notin> set (entries_of Part_002
        \<lparr>assets = [(''main.css'', \<lparr>existsAt = ''/dist/main.css''\<rparr>)]\<rparr>)"
proof -
  have a: "\<not> (\<exists>p q. ''app'' = p @ ''hot-update'' @ q)"
    using str_includes_iff [of "''app''" "''hot-update''"] by (simp add: str_includes_def)
  have k: "''app'' \<in> fst ` set (assets test_compilation)"
    by (simp add: test_compilation_def)
  have x: "map_of (assets test_compilation) ''app'' = Some \<lparr>existsAt = ''./app.js''\<rparr>"
    by (simp add: test_compilation_def)
  have e: "\<exists>x q j s. map_of (assets test_compilation) ''app'' = Some x \<and>
      existsAt x = q @ [CHR ''.'', j, s] \<and>
      (j = CHR ''j'' \<or> j = CHR ''J'') \<and> (s = CHR ''s'' \<or> s = CHR ''S'')"
    using x
    by (intro exI [of _ "\<lparr>existsAt = ''./app.js''\<rparr>"] exI [of _ "''./app''"]
        exI [of _ "CHR ''j''"] exI [of _ "CHR ''s''"]) simp
  note app = entries_of_iff [of "''app''" test_compilation]
  have 1: "''app'' \<in> set (entries_of Part_002 test_compilation)"
    by (rule iffD2 [OF app [THEN conjunct1]]) (intro conjI k a e)
  have 2: "''app'' \<in> set (entries_of Runner_js test_compilation)"
    by (rule iffD2 [OF app [THEN conjunct2, THEN conjunct1]]) (intro conjI k a)
  have c: "\<exists>p q. ''main.hot-update.js'' = p @ ''hot-update'' @ q"
    using str_includes_iff [of "''main.hot-update.js''" "''hot-update''"]
    by (simp add: str_includes_def)
  note hot = entries_of_iff [of "''main.hot-update.js''"
      "\<lparr>assets = [(''main.hot-update.js'', \<lparr>existsAt = ''/dist/main.hot-update.js''\<rparr>)]\<rparr>"]
  have 3: "''main.hot-update.js'' \<notin> set (entries_of Part_002
        \<lparr>assets = [(''main.hot-update.js'', \<lparr>existsAt = ''/dist/main.hot-update.js''\<rparr>)]\<rparr>)"
  proof
    assume "''main.hot-update.js'' \<in> set (entries_of Part_002
        \<lparr>assets = [(''main.hot-update.js'', \<lparr>existsAt = ''/dist/main.hot-update.js''\<rparr>)]\<rparr>)"
    from iffD1 [OF hot [THEN conjunct1] this]
    have "\<not> (\<exists>p q. ''main.hot-update.js'' = p @ ''hot-update'' @ q)"
      by (rule conjunct1 [OF conjunct2])
    from this c show False by (rule notE)
  qed
  have d: "\<not> match_js ''/dist/main.css''" by (simp add: match_js_def)
  note css = entries_of_iff [of "''main.css''" "\<lparr>assets = [(''main.css'', \<lparr>existsAt = ''/dist/main.css''\<rparr>)]\<rparr>"]
  have 4: "''main.css'' \<notin> set (entries_of Part_002
        \<lparr>assets = [(''main.css'', \<lparr>existsAt = ''/dist/main.css''\<rparr>)]\<rparr>)"
  proof
    assume "''main.css'' \<in> set (entries_of Part_002
        \<lparr>assets = [(''main.css'', \<lparr>existsAt = ''/dist/main.css''\<rparr>)]\<rparr>)"
    from iffD1 [OF css [THEN conjunct1] this]
    have "\<exists>x q j s. map_of (assets \<lparr>assets = [(''main.css'', \<lparr>existsAt = ''/dist/main.css''\<rparr>)]\<rparr>)
        ''main.css'' = Some x \<and> existsAt x = q @ [CHR ''.'', j, s] \<and>
        (j = CHR ''j'' \<or> j = CHR ''J'') \<and> (s = CHR ''s'' \<or> s = CHR ''S'')"
      by (rule conjunct2 [OF conjunct2])
    then have "\<exists>q j s. ''/dist/main.css'' = q @ [CHR ''.'', j, s] \<and>
        (j = CHR ''j'' \<or> j = CHR ''J'') \<and> (s = CHR ''s'' \<or> s = CHR ''S'')"
      by simp
    then have "match_js ''/dist/main.css''" by (simp only: match_js_iff)
    with d show False by (rule notE)
  qed
  from 1 2 3 4 show ?thesis by (intro conjI)
qed

text \<open>
  Claim C3. The candidates are to be the artifact names whose path is that of a finished
  script and which hold no \<open>hot-update\<close> fragment. Part 002 filters so (the lemma
  \<open>entries_of_iff\<close> above); \<open>src/runner.js\<close> does not look at the path. With a
  stylesheet emitted before the script and no entry pre-set, \<open>src/runner.js\<close> has the
  stylesheet among its candidates, selects it as the first one, and forks it on \<open>done\<close>,
  where part 002 has the script as its only candidate.
\<close>

theorem candidate_entries_runner_js:
  "entries_of Runner_js
     \<lparr>assets = [(''styles.css'', \<lparr>existsAt = ''dist/styles.css''\<rparr>),
                (''app.js'', \<lparr>existsAt = ''dist/app.js''\<rparr>)]\<rparr> = [''styles.css'', ''app.js'']
 \<and> \<not> match_js ''dist/styles.css''
 \<and> entries_of Part_002
     \<lparr>assets = [(''styles.css'', \<lparr>existsAt = ''dist/styles.css''\<rparr>),
                (''app.js'', \<lparr>existsAt = ''dist/app.js''\<rparr>)]\<rparr> = [''app.js'']
 \<and> triggers Runner_js example_resolve
       [AfterEmit \<lparr>assets = [(''styles.css'', \<lparr>existsAt = ''dist/styles.css''\<rparr>),
                             (''app.js'', \<lparr>existsAt = ''dist/app.js''\<rparr>)]\<rparr>, Done]
       (constructor None, []) =
     Inr (\<lparr>r_entry = Some ''styles.css'', r_entryPath = Some ''/project/dist/styles.css'',
           r_running = True, r_instance = Some 0, r_setup = True\<rparr>,
          [log None None,
           logWarn ''Doing fallback to the first entry: styles.css'',
           logAvailableEntries [''styles.css'', ''app.js''],
           logSuccess ''Entry file: /project/dist/styles.css'',
           Callback,
           Fork (Some ''/project/dist/styles.css''),
           log None None,
           logSuccess ''Starting bundle process''])"
proof -
  let ?c = "\<lparr>assets = [(''styles.css'', \<lparr>existsAt = ''dist/styles.css''\<rparr>),
                (''app.js'', \<lparr>existsAt = ''dist/app.js''\<rparr>)]\<rparr>"
  have 1: "entries_of Runner_js ?c = [''styles.css'', ''app.js'']" by simp
  have 2: "\<not> match_js ''dist/styles.css''" by (simp add: match_js_def)
  have 3: "entries_of Part_002 ?c = [''app.js'']"
    by (simp add: match_js_def str_includes_def)
  have u: "\<not> r_setup (constructor None)" "\<not> truthy (r_entry (constructor None))"
    by (simp_all add: constructor_def truthy_def)
  have m: "map_of (assets ?c) ''styles.css'' = Some \<lparr>existsAt = ''dist/styles.css''\<rparr>"
    by simp
  have 4: "onAssetsEmitted Runner_js example_resolve ?c (constructor None, []) =
     Inr ((constructor None)\<lparr>r_setup := True, r_entry := Some ''styles.css'',
            r_entryPath := Some (example_resolve ''dist/styles.css'')\<rparr>,
          [] @ [log None None,
           logWarn (''Doing fallback to the first entry: '' @ ''styles.css''),
           logAvailableEntries (entries_of Runner_js ?c),
           logSuccess (''Entry file: '' @ example_resolve ''dist/styles.css'')] @ [Callback])"
    using onAssetsEmitted_first [OF u 1 _ m, of example_resolve "[]"] by simp
  have 5: "triggers Runner_js example_resolve [AfterEmit ?c, Done] (constructor None, []) =
     Inr (\<lparr>r_entry = Some ''styles.css'', r_entryPath = Some ''/project/dist/styles.css'',
           r_running = True, r_instance = Some 0, r_setup = True\<rparr>,
          [log None None,
           logWarn ''Doing fallback to the first entry: styles.css'',
           logAvailableEntries [''styles.css'', ''app.js''],
           logSuccess ''Entry file: /project/dist/styles.css'',
           Callback,
           Fork (Some ''/project/dist/styles.css''),
           log None None,
           logSuccess ''Starting bundle process''])"
    unfolding triggers.simps trigger.simps 4 1
    by (simp add: onCompilationEnds_def constructor_def truthy_def example_resolve_def)
  from 1 2 3 5 show ?thesis by (intro conjI)
qed

text \<open>
  Claim C6. Every \<open>after-emit\<close> returns normally, with console lines followed by exactly
  one call of the continuation, the last thing it does; \<open>_setup\<close> is set afterwards, and
  \<open>_running\<close> and \<open>_instance\<close> are untouched. When \<open>_setup\<close> was set already, the instance
  is unchanged and nothing is logged. When it was not, the resolution runs: the lines
  are the blank line, the lines of the branch taken and the entry file if an entry ends
  up selected, and \<open>_entry\<close> and \<open>_entryPath\<close> are what the branch makes them. So a
  sequence of \<open>after-emit\<close> events leaves the instance as the first one left it, with the
  console lines of the first one only, and one call of the continuation per event.
\<close>

theorem after_emit_once:
  "\<exists>this' new.
      onAssetsEmitted cp pr c (this, out) = Inr (this', out @ new @ [Callback])
    \<and> (\<forall>e \<in> set new. is_ConsoleLog e)
    \<and> r_setup this'
    \<and> r_running this' = r_running this \<and> r_instance this' = r_instance this
    \<and> (r_setup this \<longrightarrow> this' = this \<and> new = [])
    \<and> (\<not> r_setup this \<longrightarrow>
         (\<exists>sel.
            new = [log None None] @ sel @
                  (if truthy (r_entry this')
                   then [logSuccess (''Entry file: '' @ template (r_entryPath this'))]
                   else [])
          \<and> (truthy (r_entry this) \<and> the (r_entry this) \<notin> set (entries_of cp c) \<longrightarrow>
               r_entry this' = None \<and>
               sel = [logError (''The required entry ('' @ the (r_entry this) @
                                '') doesn't exist''),
                      logAvailableEntries (entries_of cp c)])
          \<and> (\<not> truthy (r_entry this) \<and> length (entries_of cp c) = 1 \<longrightarrow>
               r_entry this' = Some (entries_of cp c ! 0) \<and>
               sel = [logSuccess (''Using the only available entry: '' @ entries_of cp c ! 0)])
          \<and> (\<not> truthy (r_entry this) \<and> length (entries_of cp c) > 1 \<longrightarrow>
               r_entry this' = Some (entries_of cp c ! 0) \<and>
               sel = [logWarn (''Doing fallback to the first entry: '' @ entries_of cp c ! 0),
                      logAvailableEntries (entries_of cp c)])
          \<and> (truthy (r_entry this) \<and> the (r_entry this) \<in> set (entries_of cp c) \<longrightarrow>
               r_entry this' = r_entry this \<and>
               sel = [logSuccess (''Using the following entry: '' @ the (r_entry this))])
          \<and> (\<not> truthy (r_entry this) \<and> entries_of cp c = [] \<longrightarrow>
               r_entry this' = r_entry this \<and>
               sel = [logSuccess (''Using the following entry: '' @ template (r_entry this))])
          \<and> (truthy (r_entry this') \<longrightarrow>
               (\<exists>a. map_of (assets c) (the (r_entry this')) = Some a \<and>
                    r_entryPath this' = Some (pr (existsAt a))))
          \<and> (\<not> truthy (r_entry this') \<longrightarrow> r_entryPath this' = r_entryPath this)))
    \<and> (\<forall>cs. triggers cp pr (map AfterEmit (c # cs)) (this, out) =
              Inr (this', out @ new @ replicate (Suc (length cs)) Callback))"
proof (cases "r_setup this")
  case True
  have "triggers cp pr (map AfterEmit (c # cs)) (this, out) =
      Inr (this, out @ [] @ replicate (Suc (length cs)) Callback)" for cs
    using True by (simp add: onAssetsEmitted_latched triggers_latched)
  with True show ?thesis
    by (intro exI [of _ this] exI [of _ "[]"]) (simp add: onAssetsEmitted_latched)
next
  case False
  from onAssetsEmitted_first_event [OF False, of cp pr c out]
  obtain this' sel where all:
    "onAssetsEmitted cp pr c (this, out) =
       Inr (this', out @ [log None None] @ sel @
              (if truthy (r_entry this')
               then [logSuccess (''Entry file: '' @ template (r_entryPath this'))] else []) @
              [Callback])
   \<and> (truthy (r_entry this) \<and> the (r_entry this) \<notin> set (entries_of cp c) \<longrightarrow>
        r_entry this' = None \<and>
        sel = [logError (''The required entry ('' @ the (r_entry this) @ '') doesn't exist''),
               logAvailableEntries (entries_of cp c)])
   \<and> (\<not> truthy (r_entry this) \<and> length (entries_of cp c) = 1 \<longrightarrow>
        r_entry this' = Some (entries_of cp c ! 0) \<and>
        sel = [logSuccess (''Using the only available entry: '' @ entries_of cp c ! 0)])
   \<and> (\<not> truthy (r_entry this) \<and> length (entries_of cp c) > 1 \<longrightarrow>
        r_entry this' = Some (entries_of cp c ! 0) \<and>
        sel = [logWarn (''Doing fallback to the first entry: '' @ entries_of cp c ! 0),
               logAvailableEntries (entries_of cp c)])
   \<and> (truthy (r_entry this) \<and> the (r_entry this) \<in> set (entries_of cp c) \<longrightarrow>
        r_entry this' = r_entry this \<and>
        sel = [logSuccess (''Using the following entry: '' @ the (r_entry this))])
   \<and> (\<not> truthy (r_entry this) \<and> entries_of cp c = [] \<longrightarrow>
        r_entry this' = r_entry this \<and>
        sel = [logSuccess (''Using the following entry: '' @ template (r_entry this))])
   \<and> (truthy (r_entry this') \<longrightarrow>
        (\<exists>a. map_of (assets c) (the (r_entry this')) = Some a \<and>
             r_entryPath this' = Some (pr (existsAt a))))
   \<and> (\<not> truthy (r_entry this') \<longrightarrow> r_entryPath this' = r_entryPath this)
   \<and> r_setup this'
   \<and> r_running this' = r_running this \<and> r_instance this' = r_instance this
   \<and> (\<forall>e \<in> set sel. is_ConsoleLog e)"
    by (elim exE) (erule that)
  define new where "new = [log None None] @ sel @
              (if truthy (r_entry this')
               then [logSuccess (''Entry file: '' @ template (r_entryPath this'))] else [])"
  from all have r: "onAssetsEmitted cp pr c (this, out) = Inr (this', out @ new @ [Callback])"
    by (simp add: new_def)
  from all have s: "r_setup this'" by (elim conjE)
  from all have p: "r_running this' = r_running this" "r_instance this' = r_instance this"
    by simp_all
  from all have "\<forall>e \<in> set sel. is_ConsoleLog e" by (elim conjE)
  then have l: "\<forall>e \<in> set new. is_ConsoleLog e"
    by (cases "truthy (r_entry this')") (simp_all add: new_def)
  have t: "triggers cp pr (map AfterEmit (c # cs)) (this, out) =
      Inr (this', out @ new @ replicate (Suc (length cs)) Callback)" for cs
    using r s by (simp add: triggers_latched)
  have n: "new = [log None None] @ sel @
              (if truthy (r_entry this')
               then [logSuccess (''Entry file: '' @ template (r_entryPath this'))] else [])"
    by (rule new_def)
  from all n have f: "\<exists>sel.
            new = [log None None] @ sel @
                  (if truthy (r_entry this')
                   then [logSuccess (''Entry file: '' @ template (r_entryPath this'))]
                   else [])
          \<and> (truthy (r_entry this) \<and> the (r_entry this) \<notin> set (entries_of cp c) \<longrightarrow>
        r_entry this' = None \<and>
        sel = [logError (''The required entry ('' @ the (r_entry this) @ '') doesn't exist''),
               logAvailableEntries (entries_of cp c)])
   \<and> (\<not> truthy (r_entry this) \<and> length (entries_of cp c) = 1 \<longrightarrow>
        r_entry this' = Some (entries_of cp c ! 0) \<and>
        sel = [logSuccess (''Using the only available entry: '' @ entries_of cp c ! 0)])
   \<and> (\<not> truthy (r_entry this) \<and> length (entries_of cp c) > 1 \<longrightarrow>
        r_entry this' = Some (entries_of cp c ! 0) \<and>
        sel = [logWarn (''Doing fallback to the first entry: '' @ entries_of cp c ! 0),
               logAvailableEntries (entries_of cp c)])
   \<and> (truthy (r_entry this) \<and> the (r_entry this) \<in> set (entries_of cp c) \<longrightarrow>
        r_entry this' = r_entry this \<and>
        sel = [logSuccess (''Using the following entry: '' @ the (r_entry this))])
   \<and> (\<not> truthy (r_entry this) \<and> entries_of cp c = [] \<longrightarrow>
        r_entry this' = r_entry this \<and>
        sel = [logSuccess (''Using the following entry: '' @ template (r_entry this))])
   \<and> (truthy (r_entry this') \<longrightarrow>
        (\<exists>a. map_of (assets c) (the (r_entry this')) = Some a \<and>
             r_entryPath this' = Some (pr (existsAt a))))
   \<and> (\<not> truthy (r_entry this') \<longrightarrow> r_entryPath this' = r_entryPath this)"
    by (intro exI [of _ sel]) (elim conjE, intro conjI; assumption)
  have g: "\<not> r_setup this \<longrightarrow>
         (\<exists>sel.
            new = [log None None] @ sel @
                  (if truthy (r_entry this')
                   then [logSuccess (''Entry file: '' @ template (r_entryPath this'))]
                   else [])
          \<and> (truthy (r_entry this) \<and> the (r_entry this) \<notin> set (entries_of cp c) \<longrightarrow>
        r_entry this' = None \<and>
        sel = [logError (''The required entry ('' @ the (r_entry this) @ '') doesn't exist''),
               logAvailableEntries (entries_of cp c)])
   \<and> (\<not> truthy (r_entry this) \<and> length (entries_of cp c) = 1 \<longrightarrow>
        r_entry this' = Some (entries_of cp c ! 0) \<and>
        sel = [logSuccess (''Using the only available entry: '' @ entries_of cp c ! 0)])
   \<and> (\<not> truthy (r_entry this) \<and> length (entries_of cp c) > 1 \<longrightarrow>
        r_entry this' = Some (entries_of cp c ! 0) \<and>
        sel = [logWarn (''Doing fallback to the first entry: '' @ entries_of cp c ! 0),
               logAvailableEntries (entries_of cp c)])
   \<and> (truthy (r_entry this) \<and> the (r_entry this) \<in> set (entries_of cp c) \<longrightarrow>
        r_entry this' = r_entry this \<and>
        sel = [logSuccess (''Using the following entry: '' @ the (r_entry this))])
   \<and> (\<not> truthy (r_entry this) \<and> entries_of cp c = [] \<longrightarrow>
        r_entry this' = r_entry this \<and>
        sel = [logSuccess (''Using the following entry: '' @ template (r_entry this))])
   \<and> (truthy (r_entry this') \<longrightarrow>
        (\<exists>a. map_of (assets c) (the (r_entry this')) = Some a \<and>
             r_entryPath this' = Some (pr (existsAt a))))
   \<and> (\<not> truthy (r_entry this') \<longrightarrow> r_entryPath this' = r_entryPath this))"
    by (rule impI) (rule f)
  have k: "r_setup this \<longrightarrow> this' = this \<and> new = []"
    using False by simp
  have t': "\<forall>cs. triggers cp pr (map AfterEmit (c # cs)) (this, out) =
              Inr (this', out @ new @ replicate (Suc (length cs)) Callback)"
    by (intro allI) (rule t)
  show ?thesis
    by (intro exI [of _ this'] exI [of _ new] conjI)
      (rule r l s p k g t')+
qed

text \<open>
  Three \<open>after-emit\<close> events on a fresh instance resolve the entry once and call the
  continuation three times; an instance whose \<open>_setup\<close> is set only calls it.
\<close>

theorem after_emit_once_witness:
  "(\<exists>this'.
      triggers Runner_js example_resolve
        (map AfterEmit [test_compilation, \<lparr>assets = []\<rparr>, test_compilation])
        (constructor None, []) =
      Inr (this',
           [log None None,
            logWarn ''Doing fallback to the first entry: backend'',
            logAvailableEntries [''backend'', ''app''],
            logSuccess ''Entry file: /project/./backend.js'',
            Callback, Callback, Callback])
    \<and> r_entry this' = Some ''backend''
    \<and> r_entryPath this' = Some ''/project/./backend.js''
    \<and> r_running this' = False \<and> r_instance this' = None \<and> r_setup this')
 \<and> onAssetsEmitted Part_002 example_resolve test_compilation
       ((constructor (Some ''app''))\<lparr>r_setup := True\<rparr>, [Callback]) =
     Inr ((constructor (Some ''app''))\<lparr>r_setup := True\<rparr>, [Callback, Callback])"
proof (rule conjI)
  from after_emit_once [of Runner_js example_resolve test_compilation "constructor None" "[]"]
  obtain this' new where
    a: "(\<not> r_setup (constructor None) \<longrightarrow>
         (\<exists>sel.
            new = [log None None] @ sel @
                  (if truthy (r_entry this')
                   then [logSuccess (''Entry file: '' @ template (r_entryPath this'))]
                   else [])
          \<and> (truthy (r_entry (constructor None)) \<and> the (r_entry (constructor None)) \<notin> set (entries_of Runner_js test_compilation) \<longrightarrow>
               r_entry this' = None \<and>
               sel = [logError (''The required entry ('' @ the (r_entry (constructor None)) @
                                '') doesn't exist''),
                      logAvailableEntries (entries_of Runner_js test_compilation)])
          \<and> (\<not> truthy (r_entry (constructor None)) \<and> length (entries_of Runner_js test_compilation) = 1 \<longrightarrow>
               r_entry this' = Some (entries_of Runner_js test_compilation ! 0) \<and>
               sel = [logSuccess (''Using the only available entry: '' @ entries_of Runner_js test_compilation ! 0)])
          \<and> (\<not> truthy (r_entry (constructor None)) \<and> length (entries_of Runner_js test_compilation) > 1 \<longrightarrow>
               r_entry this' = Some (entries_of Runner_js test_compilation ! 0) \<and>
               sel = [logWarn (''Doing fallback to the first entry: '' @ entries_of Runner_js test_compilation ! 0),
                      logAvailableEntries (entries_of Runner_js test_compilation)])
          \<and> (truthy (r_entry (constructor None)) \<and> the (r_entry (constructor None)) \<in> set (entries_of Runner_js test_compilation) \<longrightarrow>
               r_entry this' = r_entry (constructor None) \<and>
               sel = [logSuccess (''Using the following entry: '' @ the (r_entry (constructor None)))])
          \<and> (\<not> truthy (r_entry (constructor None)) \<and> entries_of Runner_js test_compilation = [] \<longrightarrow>
               r_entry this' = r_entry (constructor None) \<and>
               sel = [logSuccess (''Using the following entry: '' @ template (r_entry (constructor None)))])
          \<and> (truthy (r_entry this') \<longrightarrow>
               (\<exists>a. map_of (assets test_compilation) (the (r_entry this')) = Some a \<and>
                    r_entryPath this' = Some (example_resolve (existsAt a))))
          \<and> (\<not> truthy (r_entry this') \<longrightarrow> r_entryPath this' = r_entryPath (constructor None))))"
    and b: "(\<forall>cs. triggers Runner_js example_resolve (map AfterEmit (test_compilation # cs)) ((constructor None), []) =
              Inr (this', [] @ new @ replicate (Suc (length cs)) Callback))"
    and s: "r_setup this'"
    and p: "r_running this' = r_running (constructor None)"
      "r_instance this' = r_instance (constructor None)"
    by (elim exE conjE) (rule that; assumption)
  have u: "\<not> r_setup (constructor None)" by (simp add: constructor_def)
  from a u have n:
    "new = [log None None,
            logWarn ''Doing fallback to the first entry: backend'',
            logAvailableEntries [''backend'', ''app''],
            logSuccess ''Entry file: /project/./backend.js'']
     \<and> r_entry this' = Some ''backend''
     \<and> r_entryPath this' = Some ''/project/./backend.js''"
    by (auto simp: test_compilation_def constructor_def truthy_def template_def
        example_resolve_def)
  from b have "triggers Runner_js example_resolve
      (map AfterEmit (test_compilation # [\<lparr>assets = []\<rparr>, test_compilation]))
      (constructor None, []) =
      Inr (this', [] @ new @ replicate (Suc (length [\<lparr>assets = []\<rparr>, test_compilation])) Callback)"
    by (rule spec)
  with n s p show "\<exists>this'.
      triggers Runner_js example_resolve
        (map AfterEmit [test_compilation, \<lparr>assets = []\<rparr>, test_compilation])
        (constructor None, []) =
      Inr (this',
           [log None None,
            logWarn ''Doing fallback to the first entry: backend'',
            logAvailableEntries [''backend'', ''app''],
            logSuccess ''Entry file: /project/./backend.js'',
            Callback, Callback, Callback])
    \<and> r_entry this' = Some ''backend''
    \<and> r_entryPath this' = Some ''/project/./backend.js''
    \<and> r_running this' = False \<and> r_instance this' = None \<and> r_setup this'"
    by (intro exI [of _ this']) (simp add: constructor_def del: triggers.simps)
next
  from after_emit_once [of Part_002 example_resolve test_compilation
      "(constructor (Some ''app''))\<lparr>r_setup := True\<rparr>" "[Callback]"]
  show "onAssetsEmitted Part_002 example_resolve test_compilation
       ((constructor (Some ''app''))\<lparr>r_setup := True\<rparr>, [Callback]) =
     Inr ((constructor (Some ''app''))\<lparr>r_setup := True\<rparr>, [Callback, Callback])"
    by (elim exE conjE) simp
qed

text \<open>
  Claim C7. If an \<open>after-emit\<close> ends with no entry selected, then every later sequence
  of events returns normally and leaves the instance exactly as it was, and all it adds
  to the outside world is one call of the continuation per later \<open>after-emit\<close>: no fork
  and no kill. In particular \<open>compile\<close> and \<open>done\<close> do nothing.
\<close>

theorem unresolved_is_inert:
  assumes "onAssetsEmitted cp pr c (this0, out0) = Inr (this, out)"
    and "\<not> truthy (r_entry this)"
  shows "triggers cp pr evs (this, out) =
           Inr (this, out @ replicate (length (filter is_AfterEmit evs)) Callback)
       \<and> onCompilationStarts (this, out) = (this, out)
       \<and> onCompilationEnds (this, out) = (this, out)"
proof -
  from assms(1) have "r_setup this"
    using onAssetsEmitted_shape [of cp pr c this0 out0] by auto
  with assms(2) show ?thesis
    by (simp add: triggers_inert onCompilationStarts_def onCompilationEnds_def)
qed

text \<open>The pre-set entry \<open>random\<close> of the tests is not found; the events after it do nothing.\<close>

theorem unresolved_is_inert_witness:
  "onAssetsEmitted Runner_js example_resolve test_compilation (constructor (Some ''random''), []) =
     Inr (\<lparr>r_entry = None, r_entryPath = None, r_running = False, r_instance = None,
           r_setup = True\<rparr>,
          [log None None, logError ''The required entry (random) doesn't exist'',
           logAvailableEntries [''backend'', ''app''], Callback])
   \<and> triggers Runner_js example_resolve [Done, Compile, AfterEmit test_compilation, Done]
       (\<lparr>r_entry = None, r_entryPath = None, r_running = False, r_instance = None,
         r_setup = True\<rparr>,
        [log None None, logError ''The required entry (random) doesn't exist'',
         logAvailableEntries [''backend'', ''app''], Callback]) =
     Inr (\<lparr>r_entry = None, r_entryPath = None, r_running = False, r_instance = None,
           r_setup = True\<rparr>,
          [log None None, logError ''The required entry (random) doesn't exist'',
           logAvailableEntries [''backend'', ''app''], Callback, Callback])"
proof -
  have r: "onAssetsEmitted Runner_js example_resolve test_compilation
      (constructor (Some ''random''), []) =
     Inr (\<lparr>r_entry = None, r_entryPath = None, r_running = False, r_instance = None,
           r_setup = True\<rparr>,
          [log None None, logError ''The required entry (random) doesn't exist'',
           logAvailableEntries [''backend'', ''app''], Callback])"
    using onAssetsEmitted_missing [of "constructor (Some ''random'')" "''random''" Runner_js
        test_compilation example_resolve "[]"]
    by (simp add: test_compilation_def constructor_def truthy_def)
  have n: "\<not> truthy (r_entry \<lparr>r_entry = None, r_entryPath = None, r_running = False,
      r_instance = None, r_setup = True\<rparr>)"
    by (simp add: truthy_def)
  from unresolved_is_inert [OF r n, of "[Done, Compile, AfterEmit test_compilation, Done]"] r
  show ?thesis by (simp del: triggers.simps)
qed

text \<open>
  Claim C10. An instance constructed with a non-empty entry name has a truthy \<open>_entry\<close>
  and a \<open>null\<close> \<open>_entryPath\<close>; a \<open>done\<close> delivered to it before any \<open>after-emit\<close> passes
  the guard, which tests the name only, and calls \<open>fork\<close> with \<open>null\<close>.
\<close>

theorem done_before_after_emit:
  assumes "entry \<noteq> []"
  shows "r_entryPath (constructor (Some entry)) = None
       \<and> truthy (r_entry (constructor (Some entry)))
       \<and> onCompilationEnds (constructor (Some entry), out) =
           ((constructor (Some entry))
              \<lparr>r_instance := Some (length (filter is_Fork out)), r_running := True\<rparr>,
            out @ [Fork None, log None None, logSuccess ''Starting bundle process''])"
  using assms by (simp add: onCompilationEnds_def constructor_def truthy_def)

text \<open>The entry \<open>app\<close>, with nothing emitted yet.\<close>

theorem done_before_after_emit_witness:
  "onCompilationEnds (constructor (Some ''app''), []) =
     (\<lparr>r_entry = Some ''app'', r_entryPath = None, r_running = True, r_instance = Some 0,
       r_setup = False\<rparr>,
      [Fork None, log None None, logSuccess ''Starting bundle process''])"
proof -
  have "''app'' \<noteq> []" by simp
  from done_before_after_emit [OF this, of "[]"] show ?thesis
    by (simp add: constructor_def truthy_def)
qed

section \<open>The externals and the configuration loader: claims C4, C5, C8 and C9\<close>

text \<open>
  A manifest with no \<open>dependencies\<close> section makes \<open>externals\<close> raise, and a dependency
  named \<open>__proto__\<close> gets no entry in the result.
\<close>

theorem externals_mapping_counterexample:
  "externals \<lparr>dependencies = None, devDependencies = Some [(''eslint'', ''4.18.2'')]\<rparr>
     None False None None = Inl TypeError
 \<and> externals \<lparr>dependencies = Some [(''__proto__'', ''1.0.0'')], devDependencies = None\<rparr>
     None False (Some []) (Some []) = Inr []"
  by (simp add: externals_def assign_string_def)

text \<open>
  Claim C4, as amended. A manifest without \<open>dependencies\<close>, or without
  \<open>devDependencies\<close> when \<open>addDev\<close> holds, makes the call raise a \<open>TypeError\<close>. For every
  other manifest and all arguments \<open>externals\<close> returns an object which, at every name
  other than \<open>__proto__\<close>, maps a name of \<open>extras\<close> to \<open>"commonjs "\<close> followed by its
  path, whether or not the name is ignored and whatever was set before; any other name
  to \<open>"commonjs "\<close> followed by the name if it is in defaults ++ dependencies ++
  (devDependencies if \<open>addDev\<close>) and not in the ignore list; and no other name. Its keys
  are distinct. Omitted arguments stand for no extras, \<open>addDev\<close> false, the two built-in
  defaults and the three built-in ignored names.
\<close>

theorem externals_mapping:
  "(dependencies packageJSON = None \<longrightarrow>
      externals packageJSON extras addDev defaults ignore = Inl TypeError)
 \<and> (addDev \<and> devDependencies packageJSON = None \<longrightarrow>
      externals packageJSON extras addDev defaults ignore = Inl TypeError)
 \<and> (dependencies packageJSON = Some ds \<and>
      (addDev \<longrightarrow> devDependencies packageJSON = Some dds) \<longrightarrow>
      (\<exists>result.
         externals packageJSON extras addDev defaults ignore = Inr result
       \<and> (name \<noteq> ''__proto__'' \<longrightarrow>
            map_of result name =
              (case (case extras of None \<Rightarrow> None | Some ex \<Rightarrow> map_of ex name) of
                 Some path \<Rightarrow> Some (''commonjs '' @ path)
               | None \<Rightarrow>
                   if name \<in> set ((case defaults of
                                      None \<Rightarrow> [''webpack-node-utils'', ''colors/safe'']
                                    | Some d \<Rightarrow> d) @
                                   map fst ds @
                                   (if addDev then map fst dds else []))
                      \<and> name \<notin> set (case ignore of
                                        None \<Rightarrow> [''normalize.css'', ''font-awesome'',
                                                  ''react-tap-event-plugin'']
                                      | Some i \<Rightarrow> i)
                   then Some (''commonjs '' @ name) else None))
       \<and> distinct (map fst result)))
 \<and> externals packageJSON None False None None =
       externals packageJSON (Some []) False (Some [''webpack-node-utils'', ''colors/safe''])
         (Some [''normalize.css'', ''font-awesome'', ''react-tap-event-plugin''])"
proof -
  have 1: "externals packageJSON extras addDev defaults ignore = Inl TypeError"
    if "dependencies packageJSON = None"
    using that by (simp add: externals_def)
  have 2: "externals packageJSON extras addDev defaults ignore = Inl TypeError"
    if "addDev \<and> devDependencies packageJSON = None"
    using that by (cases "dependencies packageJSON") (simp_all add: externals_def)
  have 3: "\<exists>result.
         externals packageJSON extras addDev defaults ignore = Inr result
       \<and> (name \<noteq> ''__proto__'' \<longrightarrow>
            map_of result name =
              (case (case extras of None \<Rightarrow> None | Some ex \<Rightarrow> map_of ex name) of
                 Some path \<Rightarrow> Some (''commonjs '' @ path)
               | None \<Rightarrow>
                   if name \<in> set ((case defaults of
                                      None \<Rightarrow> [''webpack-node-utils'', ''colors/safe'']
                                    | Some d \<Rightarrow> d) @
                                   map fst ds @
                                   (if addDev then map fst dds else []))
                      \<and> name \<notin> set (case ignore of
                                        None \<Rightarrow> [''normalize.css'', ''font-awesome'',
                                                  ''react-tap-event-plugin'']
                                      | Some i \<Rightarrow> i)
                   then Some (''commonjs '' @ name) else None))
       \<and> distinct (map fst result)"
    if h: "dependencies packageJSON = Some ds \<and>
      (addDev \<longrightarrow> devDependencies packageJSON = Some dds)"
  proof -
    define names where "names =
      (case defaults of None \<Rightarrow> [''webpack-node-utils'', ''colors/safe''] | Some d \<Rightarrow> d) @
      map fst ds @ map fst (if addDev then dds else [])"
    have names_eq: "names =
      (case defaults of None \<Rightarrow> [''webpack-node-utils'', ''colors/safe''] | Some d \<Rightarrow> d) @
      map fst ds @ (if addDev then map fst dds else [])"
      by (simp add: names_def)
    define ign where "ign =
      (case ignore of
         None \<Rightarrow> [''normalize.css'', ''font-awesome'', ''react-tap-event-plugin'']
       | Some i \<Rightarrow> i)"
    define base where "base =
      fold (\<lambda>pckg result. if arr_indexOf ign pckg = - 1
                            then assign_string pckg (''commonjs '' @ pckg) result else result)
        names []"
    define result where "result =
      (case extras of
         None \<Rightarrow> base
       | Some ex \<Rightarrow>
           fold (\<lambda>name result.
                   assign_string name
                     (''commonjs '' @ (case map_of ex name of
                                         None \<Rightarrow> ''undefined'' | Some p \<Rightarrow> p))
                     result)
             (map fst ex) base)"
    have dv: "(if addDev then devDependencies packageJSON else Some []) =
        Some (if addDev then dds else [])"
      using h by simp
    from h have ds: "dependencies packageJSON = Some ds" by simp
    have ext: "externals packageJSON extras addDev defaults ignore = Inr result"
      unfolding externals_def ds dv option.case Let_def result_def base_def names_def ign_def
      by (rule refl)
    have base: "map_of base name =
      (if name \<in> set names \<and> name \<notin> set ign then Some (''commonjs '' @ name) else None)"
      if "name \<noteq> ''__proto__''"
      unfolding base_def fold_assign_string_guarded
      using that by (simp add: map_of_fold_guarded arr_indexOf_neg)
    have dbase: "distinct (map fst base)"
      unfolding base_def fold_assign_string_guarded by (simp add: distinct_fold_guarded)
    have m: "map_of result name =
       (case (case extras of None \<Rightarrow> None | Some ex \<Rightarrow> map_of ex name) of
          Some path \<Rightarrow> Some (''commonjs '' @ path)
        | None \<Rightarrow>
            if name \<in> set names \<and> name \<notin> set ign
            then Some (''commonjs '' @ name) else None)"
      if np: "name \<noteq> ''__proto__''"
    proof (cases extras)
      case None
      then show ?thesis unfolding result_def by (simp add: base [OF np])
    next
      case (Some ex)
      show ?thesis
      proof (cases "map_of ex name")
        case None
        then have "name \<notin> set (map fst ex)" by (simp add: map_of_eq_None_iff)
        with Some None show ?thesis
          unfolding result_def fold_assign_string
          by (simp add: map_of_fold_guarded base [OF np] del: set_map)
      next
        case found: (Some path)
        then have "name \<in> set (map fst ex)"
          by (metis map_of_eq_None_iff option.distinct(1) set_map)
        with Some found np show ?thesis
          unfolding result_def fold_assign_string
          by (simp add: map_of_fold_guarded del: set_map)
      qed
    qed
    have d: "distinct (map fst result)"
      unfolding result_def fold_assign_string
      by (cases extras) (simp_all add: dbase distinct_fold_guarded)
    from ext m d show ?thesis
      unfolding names_eq ign_def by (intro exI [of _ result]) simp
  qed
  have 4: "externals packageJSON None False None None =
       externals packageJSON (Some []) False (Some [''webpack-node-utils'', ''colors/safe''])
         (Some [''normalize.css'', ''font-awesome'', ''react-tap-event-plugin''])"
    by (cases "dependencies packageJSON") (simp_all add: externals_def Let_def)
  from 1 2 3 4 show ?thesis by (intro conjI impI)
qed

text \<open>
  Manifests without a section that is read, the repository's own manifest, and a
  manifest without \<open>devDependencies\<close> when they are not asked for.
\<close>

theorem externals_mapping_witness:
  "externals \<lparr>dependencies = None, devDependencies = None\<rparr> None False None None =
     Inl TypeError
 \<and> externals \<lparr>dependencies = Some [], devDependencies = None\<rparr> None True None None =
     Inl TypeError
 \<and> (\<exists>result.
       externals example_manifest (Some [(''font-awesome'', ''./vendor/fa.js'')]) True None None =
         Inr result
     \<and> map_of result ''font-awesome'' = Some ''commonjs ./vendor/fa.js''
     \<and> map_of result ''colors/safe'' = Some ''commonjs colors/safe''
     \<and> map_of result ''eslint'' = Some ''commonjs eslint''
     \<and> map_of result ''react-tap-event-plugin'' = None)
 \<and> (\<exists>result.
       externals \<lparr>dependencies = Some [(''colors'', ''1.1.2'')], devDependencies = None\<rparr>
         None False None (Some [''colors'']) = Inr result
     \<and> map_of result ''colors'' = None
     \<and> map_of result ''webpack-node-utils'' = Some ''commonjs webpack-node-utils'')"
proof (intro conjI)
  show "externals \<lparr>dependencies = None, devDependencies = None\<rparr> None False None None =
     Inl TypeError"
    using externals_mapping [of "\<lparr>dependencies = None, devDependencies = None\<rparr>" None False None None]
    by simp
next
  show "externals \<lparr>dependencies = Some [], devDependencies = None\<rparr> None True None None =
     Inl TypeError"
    using externals_mapping [of "\<lparr>dependencies = Some [], devDependencies = None\<rparr>" None True None None]
    by simp
next
  let ?ex = "Some [(''font-awesome'', ''./vendor/fa.js'')]"
  have h: "dependencies example_manifest =
      Some [(''webpack-merge'', ''4.1.2''), (''colors'', ''1.1.2'')] \<and>
    (True \<longrightarrow> devDependencies example_manifest = Some (the (devDependencies example_manifest)))"
    by (simp add: example_manifest_def)
  note i = externals_mapping [of example_manifest ?ex True None None
      "[(''webpack-merge'', ''4.1.2''), (''colors'', ''1.1.2'')]"
      "the (devDependencies example_manifest)", THEN conjunct2, THEN conjunct2, THEN conjunct1,
      rule_format, OF h]
  from i [of "''font-awesome''"] i [of "''colors/safe''"] i [of "''eslint''"]
    i [of "''react-tap-event-plugin''"]
  show "\<exists>result.
       externals example_manifest ?ex True None None = Inr result
     \<and> map_of result ''font-awesome'' = Some ''commonjs ./vendor/fa.js''
     \<and> map_of result ''colors/safe'' = Some ''commonjs colors/safe''
     \<and> map_of result ''eslint'' = Some ''commonjs eslint''
     \<and> map_of result ''react-tap-event-plugin'' = None"
    by (auto simp: example_manifest_def)
next
  let ?m = "\<lparr>dependencies = Some [(''colors'', ''1.1.2'')], devDependencies = None\<rparr>"
  have h: "dependencies ?m = Some [(''colors'', ''1.1.2'')] \<and>
    (False \<longrightarrow> devDependencies ?m = Some [])"
    by simp
  note i = externals_mapping [of ?m None False None "Some [''colors'']" "[(''colors'', ''1.1.2'')]" "[]",
      THEN conjunct2, THEN conjunct2, THEN conjunct1, rule_format, OF h]
  from i [of "''colors''"] i [of "''webpack-node-utils''"]
  show "\<exists>result.
       externals ?m None False None (Some [''colors'']) = Inr result
     \<and> map_of result ''colors'' = None
     \<and> map_of result ''webpack-node-utils'' = Some ''commonjs webpack-node-utils''"
    by auto
qed

text \<open>
  Claim C5. When the configuration function of the loaded module returns an object whose
  \<open>extends\<close> is truthy, \<open>_loadConfig\<close> loads the configuration named by it from the same
  directory, with the very same \<open>params\<close> and no variant, and returns
  \<open>merge(baseConfig, config)\<close> where \<open>config\<close> has lost its \<open>extends\<close> and nothing else;
  an error of the parent load is the result, and if the parent load does not return,
  neither does this one. The merge itself is \<open>webpack-merge\<close>'s. No cycle is detected: a
  configuration that extends itself is loaded again and again, and the call returns
  for no amount of fuel.
\<close>

theorem loadConfig_extends:
  assumes "require h (path_join h directory (name @ ''.js'')) = Some m"
    and "(if truthy fn then named_exports m (the fn) else default_export m) = Some f"
    and "js_truthy (get_prop (f params) ''extends'')"
  shows "loadConfig (Suc fuel) h directory name params fn =
           (case loadConfig fuel h directory (toString (get_prop (f params) ''extends''))
                   params None of
              None \<Rightarrow> None
            | Some (Inl err) \<Rightarrow> Some (Inl err)
            | Some (Inr baseConfig) \<Rightarrow>
                Some (Inr (merge h baseConfig (delete_prop (f params) ''extends''))))
       \<and> get_prop (delete_prop (f params) ''extends'') ''extends'' = JUndefined
       \<and> (\<forall>k. k \<noteq> ''extends'' \<longrightarrow>
              get_prop (delete_prop (f params) ''extends'') k = get_prop (f params) k)
       \<and> (\<not> truthy fn \<and> toString (get_prop (f params) ''extends'') = name \<longrightarrow>
            (\<forall>n. loadConfig n h directory name params fn = None))"
proof -
  have 1: "loadConfig (Suc fuel) h directory name params fn =
           (case loadConfig fuel h directory (toString (get_prop (f params) ''extends''))
                   params None of
              None \<Rightarrow> None
            | Some (Inl err) \<Rightarrow> Some (Inl err)
            | Some (Inr baseConfig) \<Rightarrow>
                Some (Inr (merge h baseConfig (delete_prop (f params) ''extends''))))" for fuel
    using assms by (simp add: Let_def)
  have 2: "loadConfig n h directory name params fn = None"
    if c: "\<not> truthy fn" "toString (get_prop (f params) ''extends'') = name" for n
  proof (cases n)
    case 0
    then show ?thesis by simp
  next
    case (Suc k)
    from c assms(2) have d: "default_export m = Some f" by simp
    have "loadConfig k h directory name params None = None"
      by (rule loadConfig_self_cycle [OF assms(1) d assms(3) c(2)])
    with 1 [of k] c(2) Suc show ?thesis by simp
  qed
  from 1 2 show ?thesis
    by (simp add: get_prop_delete_prop get_prop_delete_prop_other)
qed

text \<open>
  A configuration that extends \<open>base\<close> comes back merged on top of it; one that extends
  itself never comes back.
\<close>

theorem loadConfig_extends_witness:
  "loadConfig (Suc (Suc 0)) example_host ''.webpack'' ''app.production'' [] None =
     Some (Inr [(''name'', JString ''app-production''), (''fromBase'', JBoolean True)])
 \<and> (\<forall>n. loadConfig n example_host ''.webpack'' ''loop'' [] None = None)"
proof -
  have m: "require example_host (path_join example_host ''.webpack'' (''app.production'' @ ''.js'')) =
      Some \<lparr>default_export =
                 Some (\<lambda>params. [(''extends'', JString ''base''),
                                  (''name'', JString ''app-production'')]),
              named_exports =
                (\<lambda>n. if n = ''custom''
                      then Some (\<lambda>params. [(''name'', JString ''app-production-custom''),
                                            (''params'', JObject params)])
                      else None)\<rparr>"
    by (simp add: require_def example_host_simps example_modules_def)
  have l: "require example_host (path_join example_host ''.webpack'' (''loop'' @ ''.js'')) =
      Some \<lparr>default_export = Some (\<lambda>params. [(''extends'', JString ''loop'')]),
            named_exports = (\<lambda>n. None)\<rparr>"
    by (simp add: require_def example_host_simps example_modules_def)
  have base: "loadConfig (Suc 0) example_host ''.webpack'' ''base'' [] None =
      Some (Inr [(''name'', JString ''base''), (''fromBase'', JBoolean True)])"
    by (simp add: require_def example_host_simps example_modules_def truthy_def
        get_prop_def Let_def)
  have 1: "loadConfig (Suc (Suc 0)) example_host ''.webpack'' ''app.production'' [] None =
     Some (Inr [(''name'', JString ''app-production''), (''fromBase'', JBoolean True)])"
    using loadConfig_extends [OF m, of None _ "[]" "Suc 0"] base
    by (simp add: truthy_def get_prop_def delete_prop_def example_host_simps object_assign_def
        del: loadConfig.simps)
  have 2: "loadConfig n example_host ''.webpack'' ''loop'' [] None = None" for n
    using loadConfig_extends [OF l, of None _ "[]" 0]
    by (simp add: truthy_def get_prop_def del: loadConfig.simps)
  from 1 2 show ?thesis by simp
qed



text \<open>
  A caller that supplies its own \<open>hash\<close> overrides the default, while \<open>hashStr\<close> is still
  made from \<open>Date.now()\<close>: the two fields of the bag disagree, and the configuration
  function is handed that bag.
\<close>

theorem config_hash_consistent_counterexample:
  "config_params 5 True (Some [(''hash'', JString ''x'')]) =
     [(''hash'', JString ''x''), (''hashStr'', JString ''.5'')]
   \<and> get_prop (config_params 5 True (Some [(''hash'', JString ''x'')])) ''hashStr'' \<noteq>
       JString (''.'' @ toString
          (get_prop (config_params 5 True (Some [(''hash'', JString ''x'')])) ''hash''))
   \<and> config (Suc 0) example_host ''.webpack'' ''app'' ''production'' True
       (Some [(''hash'', JString ''x'')]) (Some ''custom'') =
     Some (Inr [(''name'', JString ''app-production-custom''),
                (''params'', JObject [(''hash'', JString ''x''),
                                      (''hashStr'', JString ''.1520000000000'')])])"
proof -
  have 1: "config_params 5 True (Some [(''hash'', JString ''x'')]) =
     [(''hash'', JString ''x''), (''hashStr'', JString ''.5'')]"
    by (simp add: config_params_def object_assign_def Let_def string_of_nat.simps)
  have 2: "get_prop (config_params 5 True (Some [(''hash'', JString ''x'')])) ''hashStr'' \<noteq>
       JString (''.'' @ toString
          (get_prop (config_params 5 True (Some [(''hash'', JString ''x'')])) ''hash''))"
    unfolding 1 by (simp add: get_prop_def)
  have b: "config_params (date_now example_host) True (Some [(''hash'', JString ''x'')]) =
     [(''hash'', JString ''x''), (''hashStr'', JString ''.1520000000000'')]"
    by (simp add: config_params_def object_assign_def Let_def string_of_nat.simps
        example_host_simps)
  have 3: "config (Suc 0) example_host ''.webpack'' ''app'' ''production'' True
       (Some [(''hash'', JString ''x'')]) (Some ''custom'') =
     Some (Inr [(''name'', JString ''app-production-custom''),
                (''params'', JObject [(''hash'', JString ''x''),
                                      (''hashStr'', JString ''.1520000000000'')])])"
    unfolding config_def Let_def b
    by (simp add: require_def example_host_simps example_modules_def truthy_def get_prop_def)
  from 1 2 3 show ?thesis by (intro conjI)
qed

text \<open>
  Claim C9, as amended. For every call of \<open>config\<close> with \<open>useHash\<close> true and caller
  \<open>params\<close> that define neither \<open>hash\<close> nor \<open>hashStr\<close>, the bag handed to \<open>_loadConfig\<close>
  has \<open>hash = Date.now()\<close> and \<open>hashStr = "." + String(hash)\<close> for its own \<open>hash\<close>.
\<close>

theorem config_hash_consistent:
  assumes "map_of (case params of None \<Rightarrow> [] | Some p \<Rightarrow> p) ''hash'' = None"
    and "map_of (case params of None \<Rightarrow> [] | Some p \<Rightarrow> p) ''hashStr'' = None"
  shows "get_prop (config_params (date_now h) True params) ''hash'' = JNumber (int (date_now h))
       \<and> get_prop (config_params (date_now h) True params) ''hashStr'' =
           JString (''.'' @ toString (get_prop (config_params (date_now h) True params) ''hash''))
       \<and> config fuel h directory target type True params fn =
           loadConfig fuel h directory (target @ ''.'' @ type)
             (config_params (date_now h) True params) (if truthy fn then fn else Some [])"
  using assms
  by (simp add: get_prop_def config_params_def Let_def map_of_object_assign_absent config_def)

text \<open>A caller parameter other than the two hash fields.\<close>

theorem config_hash_consistent_witness:
  "get_prop (config_params (date_now example_host) True
       (Some [(''paramOne'', JString ''charito'')])) ''hash'' = JNumber 1520000000000
   \<and> get_prop (config_params (date_now example_host) True
       (Some [(''paramOne'', JString ''charito'')])) ''hashStr'' = JString ''.1520000000000''"
  using config_hash_consistent [of "Some [(''paramOne'', JString ''charito'')]" example_host 0 "''.webpack''"
      "''app''" "''production''" None]
  by (simp add: example_host_def string_of_nat.simps)

end
